theory Spec2Isabelle
  imports Complex_Main
begin

section \<open>The daily-fortune poster plugin (painter.py, resources.py, main.py)\<close>

text \<open>
  A shallow embedding of the plugin's fortune selection, text wrapping, download,
  background acquisition, cache migration and request orchestration. Python exceptions
  are values of \<open>py_error\<close>; the outside world (the font's measurements, the random
  generator, the HTTP server, the file system's failures) is passed in as arguments.
\<close>

datatype py_error =
    ValueError | IndexError | KeyError | TimeoutError | ClientPayloadError | ClientError
  | OSError | CancelledError | ZeroDivisionError

subsection \<open>painter.py: \<open>FortunePainter.wrap_text\<close>\<close>






subsection \<open>Python built-ins used by the selection\<close>

definition startswith :: "string \<Rightarrow> string \<Rightarrow> bool" where
  "startswith s p = (take (length p) s = p)"

text \<open>
  \<open>int(k)\<close> on a string, base 10: white space is stripped at both ends, one sign may
  lead, and the digits may be grouped by single underscores. Anything else raises
  ValueError. The model reads ASCII; the digits and spaces of other scripts, which
  Python accepts too, are outside it.
\<close>

definition is_space :: "char \<Rightarrow> bool" where
  "is_space c = (let n = (of_char c :: nat) in (9 \<le> n \<and> n \<le> 13) \<or> (28 \<le> n \<and> n \<le> 32))"

definition strip :: "string \<Rightarrow> string" where
  "strip s = rev (dropWhile is_space (rev (dropWhile is_space s)))"

definition digit_val :: "char \<Rightarrow> nat option" where
  "digit_val c = (let n = (of_char c :: nat) in if 48 \<le> n \<and> n \<le> 57 then Some (n - 48) else None)"

fun digits_loop :: "nat \<Rightarrow> bool \<Rightarrow> string \<Rightarrow> py_error + nat" where
  "digits_loop acc prev_digit [] = (if prev_digit then Inr acc else Inl ValueError)"
| "digits_loop acc prev_digit (c # cs) =
     (if c = CHR ''_''
      then (if prev_digit then digits_loop acc False cs else Inl ValueError)
      else (case digit_val c of
              None \<Rightarrow> Inl ValueError
            | Some d \<Rightarrow> digits_loop (10 * acc + d) True cs))"

definition py_int :: "string \<Rightarrow> py_error + int" where
  "py_int s =
     (case strip s of
        [] \<Rightarrow> Inl ValueError
      | c # cs \<Rightarrow>
          if c = CHR ''-'' then map_sum id (\<lambda>n. - int n) (digits_loop 0 False cs)
          else if c = CHR ''+'' then map_sum id int (digits_loop 0 False cs)
          else map_sum id int (digits_loop 0 False (c # cs)))"

text \<open>
  \<open>datetime.now()\<close> as the caller's calendar date, and the two formats the selection
  takes of it: \<open>strftime("%Y-%m-%d")\<close> and \<open>strftime("%m-%d")\<close>, zero padded.
\<close>

record date =
  year :: nat
  month :: nat
  day :: nat

definition digit_char :: "nat \<Rightarrow> char" where
  "digit_char d = ''0123456789'' ! d"

definition pad2 :: "nat \<Rightarrow> string" where
  "pad2 n = [digit_char (n div 10 mod 10), digit_char (n mod 10)]"

definition pad4 :: "nat \<Rightarrow> string" where
  "pad4 n = [digit_char (n div 1000 mod 10), digit_char (n div 100 mod 10),
             digit_char (n div 10 mod 10), digit_char (n mod 10)]"

definition strftime_Ymd :: "date \<Rightarrow> string" where
  "strftime_Ymd d = pad4 (year d) @ ''-'' @ pad2 (month d) @ ''-'' @ pad2 (day d)"

definition strftime_md :: "date \<Rightarrow> string" where
  "strftime_md d = pad2 (month d) @ ''-'' @ pad2 (day d)"

text \<open>The dates \<open>datetime\<close> can hold.\<close>

definition valid_date :: "date \<Rightarrow> bool" where
  "valid_date d = (1 \<le> year d \<and> year d \<le> 9999 \<and> 1 \<le> month d \<and> month d \<le> 12
                   \<and> 1 \<le> day d \<and> day d \<le> 31)"

text \<open>
  \<open>random.Random\<close>: the generator's state is of a type \<open>'g\<close>, and the three operations
  the selection uses are passed in. \<open>rng.seed(s)\<close> sets the state from the string alone;
  \<open>rng.random()\<close> and \<open>rng._randbelow(n)\<close> return a number and the next state.
\<close>

record 'g rng_ops =
  seed_str :: "string \<Rightarrow> 'g"
  random :: "'g \<Rightarrow> rat \<times> 'g"
  randbelow :: "nat \<Rightarrow> 'g \<Rightarrow> nat \<times> 'g"

text \<open>
  \<open>rng.choices(population, weights=weights, k=1)[0]\<close> of the standard library, given the
  value \<open>u\<close> of its one call of \<open>random()\<close>: the running sums of the weights, the checks
  on them, and \<open>bisect\<close> between \<open>0\<close> and \<open>n - 1\<close>.
\<close>

fun accumulate_from :: "rat \<Rightarrow> rat list \<Rightarrow> rat list" where
  "accumulate_from running [] = []"
| "accumulate_from running (w # ws) = (running + w) # accumulate_from (running + w) ws"

definition accumulate :: "rat list \<Rightarrow> rat list" where
  "accumulate ws = accumulate_from 0 ws"

function bisect :: "rat list \<Rightarrow> rat \<Rightarrow> nat \<Rightarrow> nat \<Rightarrow> nat" where
  "bisect a x lo hi =
     (if lo < hi
      then (let mid = (lo + hi) div 2 in
            if x < a ! mid then bisect a x lo mid else bisect a x (mid + 1) hi)
      else lo)"
  by pat_completeness auto
termination
  by (relation "measure (\<lambda>(a, x, lo, hi). hi - lo)") auto

declare bisect.simps [simp del]

definition choices :: "'a list \<Rightarrow> rat list \<Rightarrow> rat \<Rightarrow> py_error + 'a" where
  "choices population weights u =
     (let n = length population; cum_weights = accumulate weights in
      if length cum_weights \<noteq> n then Inl ValueError
      else if cum_weights = [] then Inl IndexError
      else
        (let total = last cum_weights in
         if total \<le> 0 then Inl ValueError
         else Inr (population ! bisect cum_weights (u * total) 0 (n - 1))))"

text \<open>\<open>rng.choice(seq)\<close>: IndexError on an empty sequence, else \<open>seq[_randbelow(len(seq))]\<close>.\<close>

definition choice :: "'g rng_ops \<Rightarrow> 'g \<Rightarrow> 'a list \<Rightarrow> py_error + ('a \<times> 'g)" where
  "choice ops rng seq =
     (if seq = [] then Inl IndexError
      else (let (i, rng') = randbelow ops (length seq) rng in
            if i < length seq then Inr (seq ! i, rng') else Inl IndexError))"

subsection \<open>painter.py: the fortune selection of \<open>FortunePainter.generate_image_sync\<close>\<close>

text \<open>
  The options of the plugin that the selection reads. A rate profile is the dictionary
  of the configuration, with integer percentages.
\<close>

record config =
  fixed_daily_fortune :: bool
  holiday_rates_enabled :: bool
  holidays :: "string list"
  normal_rates :: "string \<rightharpoonup> int"
  holiday_rates :: "string \<rightharpoonup> int"

text \<open>\<open>current_rates.get(key, default)\<close>.\<close>

definition rates_get :: "(string \<rightharpoonup> int) \<Rightarrow> string \<Rightarrow> int \<Rightarrow> int" where
  "rates_get current_rates key dflt = (case current_rates key of None \<Rightarrow> dflt | Some v \<Rightarrow> v)"

text \<open>
  The table \<open>jrys_data\<close> is the dictionary read from the JSON file, in its order: each
  key with its list of entries. The selection never reads the value of a key that
  starts with an underscore.
\<close>

type_synonym 'e fortune_table = "(string \<times> 'e list) list"

definition valid_keys :: "'e fortune_table \<Rightarrow> string list" where
  "valid_keys jrys_data = filter (\<lambda>k. \<not> startswith k ''_'') (map fst jrys_data)"

definition fortune_seed :: "string \<Rightarrow> date \<Rightarrow> string" where
  "fortune_seed user_id today = user_id @ ''-'' @ strftime_Ymd today"

definition current_rates_of :: "config \<Rightarrow> date \<Rightarrow> (string \<rightharpoonup> int)" where
  "current_rates_of cfg today =
     (let today_md = strftime_md today in
      if holiday_rates_enabled cfg \<and> today_md \<in> set (holidays cfg)
      then holiday_rates cfg else normal_rates cfg)"

text \<open>
  \<open>int(k)\<close> of every key in turn, as the three list comprehensions and the loop take
  it: the first key that does not parse raises.
\<close>

fun int_keys :: "string list \<Rightarrow> py_error + int list" where
  "int_keys [] = Inr []"
| "int_keys (k # ks) =
     (case py_int k of
        Inl e \<Rightarrow> Inl e
      | Inr v \<Rightarrow> (case int_keys ks of Inl e \<Rightarrow> Inl e | Inr vs \<Rightarrow> Inr (v # vs)))"

text \<open>
  Python's \<open>a / b\<close> on integers raises ZeroDivisionError when \<open>b\<close> is 0 and is the
  division of floating point otherwise; the model divides exactly, in the rationals.
\<close>

definition truediv :: "int \<Rightarrow> nat \<Rightarrow> py_error + rat" where
  "truediv a b = (if b = 0 then Inl ZeroDivisionError else Inr (of_int a / of_nat b))"

text \<open>
  The loop that gives every key its weight, over the values \<open>int(k)\<close> of the keys, with
  the sizes of the three categories.
\<close>

fun weights_loop ::
  "(string \<rightharpoonup> int) \<Rightarrow> nat \<Rightarrow> nat \<Rightarrow> nat \<Rightarrow> int list \<Rightarrow> py_error + rat list" where
  "weights_loop current_rates n_good n_normal n_bad [] = Inr []"
| "weights_loop current_rates n_good n_normal n_bad (val # vals) =
     (case (if val > 70
            then truediv (rates_get current_rates ''good'' 40) (max n_good 1)
            else if val \<ge> 56
            then truediv (rates_get current_rates ''normal'' 40) (max n_normal 1)
            else truediv (rates_get current_rates ''bad'' 20) (max n_bad 1)) of
        Inl e \<Rightarrow> Inl e
      | Inr w \<Rightarrow>
          (case weights_loop current_rates n_good n_normal n_bad vals of
             Inl e \<Rightarrow> Inl e
           | Inr weights \<Rightarrow> Inr (w # weights)))"

text \<open>The three categories of the keys, and the weights.\<close>

definition compute_weights :: "(string \<rightharpoonup> int) \<Rightarrow> string list \<Rightarrow> py_error + rat list" where
  "compute_weights current_rates valid_keys_list =
     (case int_keys valid_keys_list of
        Inl e \<Rightarrow> Inl e
      | Inr vals \<Rightarrow>
          (let keyed = zip valid_keys_list vals;
               good_keys = map fst (filter (\<lambda>(k, v). v > 70) keyed);
               normal_keys = map fst (filter (\<lambda>(k, v). 56 \<le> v \<and> v \<le> 70) keyed);
               bad_keys = map fst (filter (\<lambda>(k, v). v < 56) keyed)
           in weights_loop current_rates
                (length good_keys) (length normal_keys) (length bad_keys) vals))"

text \<open>The weights handed to the draw: all ones when the computed weights sum to 0 or less.\<close>

definition selection_weights :: "(string \<rightharpoonup> int) \<Rightarrow> string list \<Rightarrow> py_error + rat list" where
  "selection_weights current_rates valid_keys_list =
     (case compute_weights current_rates valid_keys_list of
        Inl e \<Rightarrow> Inl e
      | Inr weights \<Rightarrow>
          Inr (if sum_list weights \<le> 0 then replicate (length valid_keys_list) 1 else weights))"

text \<open>The draw of \<open>key_1\<close>, given the value \<open>u\<close> of the generator's \<open>random()\<close>.\<close>

definition draw_key :: "(string \<rightharpoonup> int) \<Rightarrow> string list \<Rightarrow> rat \<Rightarrow> py_error + string" where
  "draw_key current_rates valid_keys_list u =
     (case selection_weights current_rates valid_keys_list of
        Inl e \<Rightarrow> Inl e
      | Inr weights \<Rightarrow> choices valid_keys_list weights u)"

text \<open>
  The selection step: the generator (seeded from the user and the date when the fortune
  is fixed for the day, else as \<open>random.Random()\<close> made it, the state \<open>fresh\<close>), the draw
  of the key, the check that the table has it, and the draw of the entry's index. Every
  exception ends in the function's \<open>except Exception\<close> and gives None.
\<close>

definition select_fortune ::
  "config \<Rightarrow> 'g rng_ops \<Rightarrow> 'g \<Rightarrow> string \<Rightarrow> date \<Rightarrow> 'e fortune_table \<Rightarrow> (string \<times> nat) option" where
  "select_fortune cfg ops fresh user_id today jrys_data =
     (if jrys_data = [] then None
      else
        (let rng = (if fixed_daily_fortune cfg then seed_str ops (fortune_seed user_id today)
                    else fresh);
             valid_keys_list = valid_keys jrys_data;
             current_rates = current_rates_of cfg today;
             (u, rng1) = random ops rng
         in case draw_key current_rates valid_keys_list u of
              Inl e \<Rightarrow> None
            | Inr key_1 \<Rightarrow>
                (case map_of jrys_data key_1 of
                   None \<Rightarrow> None
                 | Some entries \<Rightarrow>
                     (case choice ops rng1 [0..<length entries] of
                        Inl e \<Rightarrow> None
                      | Inr (key_2, rng2) \<Rightarrow>
                          if key_2 < length entries then Some (key_1, key_2) else None))))"

subsection \<open>Notions the properties of the selection are stated with\<close>

text \<open>The weight the loop gives a key of value \<open>v\<close>, in closed form.\<close>

definition weight_of :: "(string \<rightharpoonup> int) \<Rightarrow> nat \<Rightarrow> nat \<Rightarrow> nat \<Rightarrow> int \<Rightarrow> rat" where
  "weight_of cr g n b v =
     (if v > 70 then of_int (rates_get cr ''good'' 40) / of_nat (max g 1)
      else if v \<ge> 56 then of_int (rates_get cr ''normal'' 40) / of_nat (max n 1)
      else of_int (rates_get cr ''bad'' 20) / of_nat (max b 1))"

text \<open>
  The keys of a category, as the specification counts them: the keys whose integer
  value satisfies the category's condition \<open>P\<close>.
\<close>

definition keys_in_category :: "(int \<Rightarrow> bool) \<Rightarrow> string list \<Rightarrow> string list" where
  "keys_in_category P ks = filter (\<lambda>k. case py_int k of Inl e \<Rightarrow> False | Inr v \<Rightarrow> P v) ks"

text \<open>The configuration when no option is set: the defaults of \<open>FortunePainter.__init__\<close>.\<close>

definition default_config :: config where
  "default_config =
     \<lparr>fixed_daily_fortune = True,
      holiday_rates_enabled = True,
      holidays = [''01-01'', ''02-14'', ''05-01'', ''10-01'', ''12-25''],
      normal_rates = [''good'' \<mapsto> 40, ''normal'' \<mapsto> 40, ''bad'' \<mapsto> 20],
      holiday_rates = [''good'' \<mapsto> 85, ''normal'' \<mapsto> 15, ''bad'' \<mapsto> 0]\<rparr>"

text \<open>The same with the three normal rates set to 0.\<close>

definition zero_rates_config :: config where
  "zero_rates_config =
     default_config \<lparr>normal_rates := [''good'' \<mapsto> 0, ''normal'' \<mapsto> 0, ''bad'' \<mapsto> 0]\<rparr>"

text \<open>
  A table with one key in each category and the metadata key of the last images, and a
  day that is no holiday.
\<close>

definition three_key_table :: "unit fortune_table" where
  "three_key_table =
     [(''80'', [()]), (''60'', [(), ()]), (''30'', [()]), (''_user_last_images'', [])]"

definition midsummer :: date where
  "midsummer = \<lparr>year = 2024, month = 6, day = 15\<rparr>"

text \<open>
  A generator to run the selection with: seeding counts the characters of the string,
  \<open>random()\<close> is always one half, and \<open>_randbelow(n)\<close> reads the state modulo \<open>n\<close>.
\<close>

definition example_rng :: "nat rng_ops" where
  "example_rng =
     \<lparr>seed_str = (\<lambda>s. length s),
      random = (\<lambda>g. (1 / 2, Suc g)),
      randbelow = (\<lambda>n g. (g mod n, Suc g))\<rparr>"

definition new_year :: date where
  "new_year = \<lparr>year = 2024, month = 1, day = 1\<rparr>"

text \<open>A table whose one key has an empty list of entries.\<close>

definition empty_entries_table :: "unit fortune_table" where
  "empty_entries_table = [(''80'', [])]"

subsection \<open>resources.py: \<open>ResourceManager._download_to_path\<close>\<close>

text \<open>
  A path is a directory and a file name in it; the file system is the map from the paths
  of the files that exist to their contents.
\<close>

type_synonym path = "string \<times> string"

type_synonym filesystem = "path \<rightharpoonup> string"

text \<open>
  What the world does in one attempt of a download: the token \<open>uuid4().hex\<close>; the reply to
  \<open>session.get\<close>, an exception or a status with the body; what \<open>os.replace\<close> raises, if
  anything; and whether removing the temporary file in the \<open>finally\<close> block raises. The
  body of a reply is streamed into the temporary file: opening the file may raise, and
  the stream is the chunks received and the exception that ends it, if one does.
\<close>

datatype body = OpenRaises py_error | Stream "string list" "py_error option"

record attempt =
  tmp_token :: string
  reply :: "py_error + (nat \<times> body)"
  replace_raises :: "py_error option"
  unlink_raises :: bool

text \<open>What a download does that can be seen from outside: its requests and its pauses.\<close>

datatype event = Request nat | Sleep rat

record dstate =
  fs :: filesystem
  trace :: "event list"

definition tmp_path_of :: "path \<Rightarrow> string \<Rightarrow> path" where
  "tmp_path_of dest token = (fst dest, snd dest @ ''.'' @ token @ ''.tmp'')"

text \<open>
  The \<open>finally\<close> block of an attempt: the temporary file is removed if it exists, and an
  exception of the removal is swallowed.
\<close>

definition finally_cleanup :: "attempt \<Rightarrow> path \<Rightarrow> dstate \<Rightarrow> dstate" where
  "finally_cleanup a tmp_path st =
     (if fs st tmp_path \<noteq> None
      then (if unlink_raises a then st else st\<lparr>fs := (fs st)(tmp_path := None)\<rparr>)
      else st)"

text \<open>
  How an attempt ends: the function returns, the function raises, or the loop goes on to
  the next attempt (by \<open>continue\<close>, or by falling out of the last handler).
\<close>

datatype outcome = Return bool | Raise py_error | Next

text \<open>
  The \<open>except\<close> clauses: CancelledError is raised again; every other exception is logged,
  and with attempts left the function sleeps \<open>0.2 * (attempt + 1)\<close> seconds and goes on.
\<close>

definition handle_exception :: "py_error \<Rightarrow> nat \<Rightarrow> nat \<Rightarrow> dstate \<Rightarrow> outcome \<times> dstate" where
  "handle_exception e attempt_no retries st =
     (if e = CancelledError then (Raise CancelledError, st)
      else if attempt_no < retries
      then (Next, st\<lparr>trace := trace st @ [Sleep (2 / 10 * of_nat (attempt_no + 1))]\<rparr>)
      else (Next, st))"

text \<open>The \<open>try\<close> block of one attempt, before its \<open>finally\<close>.\<close>

definition try_attempt :: "attempt \<Rightarrow> path \<Rightarrow> path \<Rightarrow> nat \<Rightarrow> nat \<Rightarrow> dstate \<Rightarrow> outcome \<times> dstate" where
  "try_attempt a dest tmp_path attempt_no retries st0 =
     (let st = st0\<lparr>trace := trace st0 @ [Request attempt_no]\<rparr> in
      case reply a of
        Inl e \<Rightarrow> handle_exception e attempt_no retries st
      | Inr (status, content) \<Rightarrow>
          if status < 200 \<or> status \<ge> 300
          then (if 500 \<le> status \<and> status \<le> 599 \<and> attempt_no < retries
                then (Next, st)
                else (Return False, st))
          else
            (case content of
               OpenRaises e \<Rightarrow> handle_exception e attempt_no retries st
             | Stream chunks ending \<Rightarrow>
                 (let st1 = st\<lparr>fs := (fs st)(tmp_path \<mapsto> concat chunks)\<rparr> in
                  case ending of
                    Some e \<Rightarrow> handle_exception e attempt_no retries st1
                  | None \<Rightarrow>
                      (case replace_raises a of
                         Some e \<Rightarrow> handle_exception e attempt_no retries st1
                       | None \<Rightarrow>
                           (Return True,
                            st1\<lparr>fs := (fs st1)(tmp_path := None, dest \<mapsto> concat chunks)\<rparr>)))))"

text \<open>
  The loop \<open>for attempt in range(retries + 1)\<close>, over the attempt numbers that are left;
  \<open>world\<close> tells what happens in each attempt. After the last attempt the function
  returns False.
\<close>

fun attempts_loop ::
  "(nat \<Rightarrow> attempt) \<Rightarrow> path \<Rightarrow> nat \<Rightarrow> nat list \<Rightarrow> dstate \<Rightarrow> (py_error + bool) \<times> dstate" where
  "attempts_loop world dest retries [] st = (Inr False, st)"
| "attempts_loop world dest retries (attempt_no # rest) st =
     (let a = world attempt_no;
          tmp_path = tmp_path_of dest (tmp_token a);
          (out, st1) = try_attempt a dest tmp_path attempt_no retries st;
          st2 = finally_cleanup a tmp_path st1
      in case out of
           Return b \<Rightarrow> (Inr b, st2)
         | Raise e \<Rightarrow> (Inl e, st2)
         | Next \<Rightarrow> attempts_loop world dest retries rest st2)"

text \<open>
  The function: \<open>retries = max(0, int(retries))\<close>, then the loop. Creating the parent
  directory comes first; \<open>mkdir_raises\<close> tells whether it raises.
\<close>

definition download_to_path ::
  "bool \<Rightarrow> (nat \<Rightarrow> attempt) \<Rightarrow> path \<Rightarrow> int \<Rightarrow> dstate \<Rightarrow> (py_error + bool) \<times> dstate" where
  "download_to_path mkdir_raises world dest retries_arg st =
     (if mkdir_raises then (Inl OSError, st)
      else (let retries = nat (max 0 retries_arg)
            in attempts_loop world dest retries [0..<retries + 1] st))"

text \<open>The number of requests in the trace of a download.\<close>

definition requests :: "dstate \<Rightarrow> nat" where
  "requests st = length (filter (\<lambda>e. case e of Request n \<Rightarrow> True | Sleep d \<Rightarrow> False) (trace st))"

text \<open>
  Worlds to run a download in. A server that answers 503 to the first request and 200
  with a body afterwards; a server that always answers 200, on a file system where the
  temporary file cannot be removed and \<open>os.replace\<close> fails.
\<close>

definition reply_200 :: attempt where
  "reply_200 = \<lparr>tmp_token = ''a1'', reply = Inr (200, Stream [''img''] None),
                 replace_raises = None, unlink_raises = False\<rparr>"

definition reply_503 :: attempt where
  "reply_503 = \<lparr>tmp_token = ''a0'', reply = Inr (503, Stream [] None),
                 replace_raises = None, unlink_raises = False\<rparr>"

definition world_503_then_200 :: "nat \<Rightarrow> attempt" where
  "world_503_then_200 attempt_no = (if attempt_no = 0 then reply_503 else reply_200)"

definition world_stuck_tmp :: "nat \<Rightarrow> attempt" where
  "world_stuck_tmp attempt_no =
     reply_200\<lparr>replace_raises := Some OSError, unlink_raises := True\<rparr>"

definition empty_state :: dstate where
  "empty_state = \<lparr>fs = Map.empty, trace = []\<rparr>"

text \<open>A server that lets the first request time out and answers 200 afterwards.\<close>

definition reply_timeout :: attempt where
  "reply_timeout = \<lparr>tmp_token = ''a0'', reply = Inl TimeoutError,
                     replace_raises = None, unlink_raises = False\<rparr>"

definition world_timeout_then_200 :: "nat \<Rightarrow> attempt" where
  "world_timeout_then_200 attempt_no = (if attempt_no = 0 then reply_timeout else reply_200)"

subsection \<open>resources.py: \<open>ResourceManager.get_background_image\<close>\<close>

definition endswith :: "string \<Rightarrow> string \<Rightarrow> bool" where
  "endswith s suffix =
     (length suffix \<le> length s \<and> drop (length s - length suffix) s = suffix)"

text \<open>The two options of the plugin that the function reads.\<close>

record resource_config =
  pre_cache_background_images :: bool
  cleanup_background_downloads :: bool

text \<open>
  The world of the function: the names in the background directory, the file that
  \<open>random.choice\<close> picks, the lines of a file (or the exception of reading it), the order
  \<open>random.shuffle\<close> leaves, the cache path of a URL (named by the SHA-256 digest of the
  URL), its temporary path (named by a fresh token), what the server does on each attempt
  for a URL, and whether creating the parent directory of a path raises. Both paths take
  their extension from \<open>urlparse(url)\<close>, which raises ValueError on some lines that start
  like a URL (a bracket that is not closed in the host, as in \<open>http://[::1/a.jpg\<close>): each
  of the two is the path or the exception.
\<close>

record bg_world =
  listdir :: "string list"
  pick_file :: "string list \<Rightarrow> string"
  read_lines :: "string \<Rightarrow> py_error + string list"
  shuffle :: "string list \<Rightarrow> string list"
  cache_path_for :: "string \<Rightarrow> py_error + path"
  tmp_path_for :: "string \<Rightarrow> py_error + path"
  http :: "string \<Rightarrow> nat \<Rightarrow> attempt"
  mkdir_fails :: "path \<Rightarrow> bool"

definition is_http :: "string \<Rightarrow> bool" where
  "is_http image_url = (startswith image_url ''http://'' \<or> startswith image_url ''https://'')"

text \<open>
  Where a URL that is not in the cache is downloaded to, and whether the caller is to
  remove the file after use: the cache path, or the temporary path, which is computed
  only when it is used.
\<close>

definition download_target ::
  "resource_config \<Rightarrow> bg_world \<Rightarrow> string \<Rightarrow> path \<Rightarrow> py_error + (path \<times> bool)" where
  "download_target cfg w image_url cache_path =
     (if \<not> pre_cache_background_images cfg \<and> cleanup_background_downloads cfg
      then (case tmp_path_for w image_url of
              Inl e \<Rightarrow> Inl e
            | Inr tmp_path \<Rightarrow> Inr (tmp_path, True))
      else Inr (cache_path, False))"

text \<open>
  The loop over the URLs to try; \<open>_download_to_path\<close> is called with its default of one
  retry. An exception of the path computations or of the download leaves the loop.
\<close>

fun try_urls ::
  "resource_config \<Rightarrow> bg_world \<Rightarrow> string list \<Rightarrow> dstate
    \<Rightarrow> (py_error + (path \<times> bool) option) \<times> dstate" where
  "try_urls cfg w [] st = (Inr None, st)"
| "try_urls cfg w (image_url # rest) st =
     (if \<not> is_http image_url then try_urls cfg w rest st
      else
        (case cache_path_for w image_url of
           Inl e \<Rightarrow> (Inl e, st)
         | Inr cache_path \<Rightarrow>
             if fs st cache_path \<noteq> None then (Inr (Some (cache_path, False)), st)
             else
               (case download_target cfg w image_url cache_path of
                  Inl e \<Rightarrow> (Inl e, st)
                | Inr (image_path, should_cleanup) \<Rightarrow>
                    (case download_to_path (mkdir_fails w image_path) (http w image_url)
                            image_path 1 st of
                       (Inl e, st') \<Rightarrow> (Inl e, st')
                     | (Inr ok, st') \<Rightarrow>
                         if ok then (Inr (Some (image_path, should_cleanup)), st')
                         else try_urls cfg w rest st'))))"

text \<open>The URLs of the chosen file that are tried: the first five at most, in shuffled order.\<close>

definition candidate_urls :: "bg_world \<Rightarrow> string list \<Rightarrow> string list" where
  "candidate_urls w file_lines =
     (let background_urls = shuffle w (filter (\<lambda>l. l \<noteq> []) (map strip file_lines));
          max_attempts = min 5 (length background_urls)
      in take max_attempts background_urls)"

text \<open>
  The function. Its \<open>except Exception\<close> turns every exception but CancelledError into the
  result None.
\<close>

definition get_background_image ::
  "resource_config \<Rightarrow> bg_world \<Rightarrow> dstate \<Rightarrow> (py_error + (path \<times> bool) option) \<times> dstate" where
  "get_background_image cfg w st =
     (let background_files = filter (\<lambda>f. endswith f ''.txt'') (listdir w) in
      if background_files = [] then (Inr None, st)
      else
        (let background_file = pick_file w background_files in
         case read_lines w background_file of
           Inl e \<Rightarrow> (if e = CancelledError then Inl e else Inr None, st)
         | Inr file_lines \<Rightarrow>
             if filter (\<lambda>l. l \<noteq> []) (map strip file_lines) = [] then (Inr None, st)
             else
               (case try_urls cfg w (candidate_urls w file_lines) st of
                  (Inl e, st') \<Rightarrow> (if e = CancelledError then Inl e else Inr None, st')
                | (Inr r, st') \<Rightarrow> (Inr r, st'))))"

text \<open>
  A world with one list of two lines, a line that is no URL and a URL that the server
  answers with 200, and the default options of the plugin.
\<close>

definition default_resource_config :: resource_config where
  "default_resource_config =
     \<lparr>pre_cache_background_images = False, cleanup_background_downloads = True\<rparr>"

definition example_bg_world :: bg_world where
  "example_bg_world =
     \<lparr>listdir = [''list.txt'', ''images''],
      pick_file = hd,
      read_lines = (\<lambda>f. Inr [''# backgrounds'', ''http://h/1.jpg'', '''']),
      shuffle = (\<lambda>urls. urls),
      cache_path_for = (\<lambda>url. Inr (''background_images'', ''digest.jpg'')),
      tmp_path_for = (\<lambda>url. Inr (''background_images_tmp'', ''token.jpg'')),
      http = (\<lambda>url attempt_no. reply_200),
      mkdir_fails = (\<lambda>p. False)\<rparr>"

text \<open>
  A list whose first line starts with \<open>http://\<close> and opens a bracket in the host that it
  does not close, so that \<open>urlparse\<close> raises ValueError on it, and whose second line is a
  URL that the server answers with 200.
\<close>

definition malformed_first_world :: bg_world where
  "malformed_first_world =
     example_bg_world
       \<lparr>read_lines := (\<lambda>f. Inr [''http://[::1/a.jpg'', ''http://h/1.jpg'']),
        cache_path_for := (\<lambda>url. if url = ''http://[::1/a.jpg'' then Inl ValueError
                                  else Inr (''background_images'', ''digest.jpg'')),
        tmp_path_for := (\<lambda>url. if url = ''http://[::1/a.jpg'' then Inl ValueError
                                else Inr (''background_images_tmp'', ''token.jpg''))\<rparr>"

text \<open>
  A list of two URLs, the first of which the server answers with 404 and the second with
  200.
\<close>

definition reply_404 :: attempt where
  "reply_404 = \<lparr>tmp_token = ''a0'', reply = Inr (404, Stream [] None),
                 replace_raises = None, unlink_raises = False\<rparr>"

definition broken_link_world :: bg_world where
  "broken_link_world =
     example_bg_world
       \<lparr>read_lines := (\<lambda>f. Inr [''http://h/0.jpg'', ''http://h/1.jpg'']),
        http := (\<lambda>url attempt_no. if url = ''http://h/0.jpg'' then reply_404 else reply_200)\<rparr>"

subsection \<open>resources.py: \<open>ResourceManager._migrate_legacy_cache_dir\<close>\<close>

text \<open>
  The legacy directory is the list of its entries, in the order \<open>iterdir\<close> yields them:
  regular files, with their modification time and content, and other entries
  (subdirectories). The target directory holds cache files by name.
\<close>

datatype dir_entry = RegularFile int string | OtherEntry

text \<open>
  What the file system does to the operations on one entry of the legacy directory:
  whether \<open>is_file\<close> raises (it does, up to Python 3.12, on an OSError other than the few
  it takes for a missing file), whether \<open>stat\<close> raises, whether \<open>unlink\<close> raises, what
  \<open>os.replace\<close> does (it renames, it fails across devices with EXDEV, or it raises another
  error), and whether \<open>shutil.copy2\<close> raises.
\<close>

datatype replace_result = Renamed | CrossDevice | ReplaceRaises

record file_faults =
  is_file_raises :: bool
  stat_raises :: bool
  unlink_fails :: bool
  replace_outcome :: replace_result
  copy_raises :: bool

definition no_faults :: file_faults where
  "no_faults = \<lparr>is_file_raises = False, stat_raises = False, unlink_fails = False,
                 replace_outcome = Renamed, copy_raises = False\<rparr>"

text \<open>
  The operations on a file succeed: none of \<open>is_file\<close>, \<open>stat\<close> and \<open>unlink\<close> raises, and
  \<open>os.replace\<close> renames, or fails across devices and the copy does not raise.
\<close>

definition operations_succeed :: "file_faults \<Rightarrow> bool" where
  "operations_succeed f =
     (\<not> is_file_raises f \<and> \<not> stat_raises f \<and> \<not> unlink_fails f
      \<and> (replace_outcome f = Renamed \<or> (replace_outcome f = CrossDevice \<and> \<not> copy_raises f)))"

record mstate =
  legacy :: "(string \<times> dir_entry) list"
  target :: "string \<rightharpoonup> (int \<times> string)"
  moved :: nat
  skipped :: nat
  replaced :: nat
  failed :: nat
  legacy_removed :: bool

text \<open>
  \<open>item.unlink(missing_ok=True); skipped += 1; continue\<close>, in the \<open>try\<close> and in its handler:
  an \<open>unlink\<close> that raises in the \<open>try\<close> raises again in the handler, and leaves the body.
  The first component tells whether the body of the loop raised.
\<close>

definition discard_source :: "file_faults \<Rightarrow> string \<Rightarrow> mstate \<Rightarrow> bool \<times> mstate" where
  "discard_source f name st =
     (if unlink_fails f then (True, st)
      else (False, st\<lparr>legacy := filter (\<lambda>(n, e). n \<noteq> name) (legacy st),
                       skipped := skipped st + 1\<rparr>))"

text \<open>\<open>os.replace(item, dest)\<close> with its fallback to copy and unlink, then \<open>moved += 1\<close>.\<close>

definition move_source ::
  "file_faults \<Rightarrow> string \<Rightarrow> int \<Rightarrow> string \<Rightarrow> mstate \<Rightarrow> bool \<times> mstate" where
  "move_source f name src_mtime content st =
     (case replace_outcome f of
        Renamed \<Rightarrow>
          (False, st\<lparr>legacy := filter (\<lambda>(n, e). n \<noteq> name) (legacy st),
                      target := (target st)(name \<mapsto> (src_mtime, content)),
                      moved := moved st + 1\<rparr>)
      | CrossDevice \<Rightarrow>
          if copy_raises f then (True, st)
          else
            (let st1 = st\<lparr>target := (target st)(name \<mapsto> (src_mtime, content))\<rparr> in
             if unlink_fails f then (True, st1)
             else (False, st1\<lparr>legacy := filter (\<lambda>(n, e). n \<noteq> name) (legacy st1),
                              moved := moved st1 + 1\<rparr>))
      | ReplaceRaises \<Rightarrow> (True, st))"

text \<open>The body of the loop for a regular file, inside its \<open>try\<close>.\<close>

definition item_body ::
  "file_faults \<Rightarrow> string \<Rightarrow> int \<Rightarrow> string \<Rightarrow> mstate \<Rightarrow> bool \<times> mstate" where
  "item_body f name src_mtime content st =
     (case target st name of
        Some (dest_mtime, dest_content) \<Rightarrow>
          if stat_raises f then discard_source f name st
          else if src_mtime \<le> dest_mtime then discard_source f name st
          else move_source f name src_mtime content (st\<lparr>replaced := replaced st + 1\<rparr>)
      | None \<Rightarrow> move_source f name src_mtime content st)"

text \<open>
  One round of the loop once \<open>item.is_file()\<close> has returned: entries that are no regular
  files are passed over; an exception of the body is counted in \<open>failed\<close> and logged, and
  the loop goes on.
\<close>

definition migrate_item :: "file_faults \<Rightarrow> string \<Rightarrow> mstate \<Rightarrow> mstate" where
  "migrate_item f name st =
     (case map_of (legacy st) name of
        Some (RegularFile src_mtime content) \<Rightarrow>
          (case item_body f name src_mtime content st of
             (True, st') \<Rightarrow> st'\<lparr>failed := failed st' + 1\<rparr>
           | (False, st') \<Rightarrow> st')
      | _ \<Rightarrow> st)"

text \<open>
  The loop over the entries. \<open>item.is_file()\<close> is called before the \<open>try\<close> of the body: when
  it raises, the exception leaves the loop, and the entries that follow are not looked
  at.
\<close>

fun migrate_loop ::
  "(string \<Rightarrow> file_faults) \<Rightarrow> string list \<Rightarrow> mstate \<Rightarrow> py_error option \<times> mstate" where
  "migrate_loop faults [] st = (None, st)"
| "migrate_loop faults (name # names) st =
     (if is_file_raises (faults name) then (Some OSError, st)
      else migrate_loop faults names (migrate_item (faults name) name st))"

text \<open>
  The function: nothing is done when the legacy directory is no directory, when it is
  the target directory, or when creating the target directory raises; an exception that
  leaves the loop ends the function in its outer handler, which logs it; after the loop
  the legacy directory is removed if it has no entry left, and an exception of \<open>rmdir\<close> is
  swallowed.
\<close>

record migration_world =
  legacy_is_dir :: bool
  same_resolved :: bool
  target_mkdir_raises :: bool
  item_faults :: "string \<Rightarrow> file_faults"
  rmdir_raises :: bool

definition migrate_legacy_cache_dir :: "migration_world \<Rightarrow> mstate \<Rightarrow> mstate" where
  "migrate_legacy_cache_dir w st =
     (if \<not> legacy_is_dir w then st
      else if same_resolved w then st
      else if target_mkdir_raises w then st
      else
        (case migrate_loop (item_faults w) (map fst (legacy st)) st of
           (Some e, st1) \<Rightarrow> st1
         | (None, st1) \<Rightarrow>
             if legacy st1 = [] then (if rmdir_raises w then st1 else st1\<lparr>legacy_removed := True\<rparr>)
             else st1))"

text \<open>
  A migration to run: three avatars in the legacy directory, an older one, a newer one
  and a new one, against a target directory with the first two names; no operation
  fails save the \<open>os.replace\<close> of a fourth file.
\<close>

definition example_migration_world :: migration_world where
  "example_migration_world =
     \<lparr>legacy_is_dir = True, same_resolved = False, target_mkdir_raises = False,
      item_faults = (\<lambda>name. if name = ''4.jpg''
                              then no_faults\<lparr>replace_outcome := ReplaceRaises\<rparr>
                              else no_faults),
      rmdir_raises = False\<rparr>"

text \<open>The same, but for the fourth file it is \<open>is_file\<close> that fails.\<close>

definition is_file_fault_world :: migration_world where
  "is_file_fault_world =
     example_migration_world
       \<lparr>item_faults := (\<lambda>name. if name = ''4.jpg''
                                then no_faults\<lparr>is_file_raises := True\<rparr>
                                else no_faults)\<rparr>"

definition example_migration_state :: mstate where
  "example_migration_state =
     \<lparr>legacy = [(''4.jpg'', RegularFile 7 ''d''), (''1.jpg'', RegularFile 10 ''old''),
                (''2.jpg'', RegularFile 30 ''new''), (''3.jpg'', RegularFile 5 ''c'')],
      target = [''1.jpg'' \<mapsto> (20, ''kept''), ''2.jpg'' \<mapsto> (20, ''stale'')],
      moved = 0, skipped = 0, replaced = 0, failed = 0, legacy_removed = False\<rparr>"

text \<open>
  What the migration is to do with a regular file of the legacy directory: the file is
  gone from there, and the target holds the newer of the two files, the target's own on a
  tie, or the file itself when the target had none of that name.
\<close>

definition migrated :: "string \<Rightarrow> int \<Rightarrow> string \<Rightarrow> mstate \<Rightarrow> mstate \<Rightarrow> bool" where
  "migrated name src_mtime content st st' =
     (map_of (legacy st') name = None
      \<and> target st' name =
          (case target st name of
             Some (dest_mtime, dest_content) \<Rightarrow>
               if src_mtime \<le> dest_mtime then Some (dest_mtime, dest_content)
               else Some (src_mtime, content)
           | None \<Rightarrow> Some (src_mtime, content)))"

subsection \<open>main.py: \<open>JrysPlugin.jrys\<close>\<close>

text \<open>
  An element of the list that \<open>asyncio.gather(..., return_exceptions=True)\<close> returns: the
  exception a fetch raised, or the value it returned.
\<close>

datatype 'a fetched = Raised py_error | Returned 'a

text \<open>What the handler yields: one of its four messages of failure, or the image.\<close>

datatype reply_msg =
    BackgroundFailed | AvatarFailed | FetchFailed | RenderFailed | ImageResult path

text \<open>
  The world of one request: the results of the two fetches, the result of
  \<open>generate_image_sync\<close> (the path of the poster, None, or an exception of the call), and
  the files whose removal raises.
\<close>

record jrys_world =
  avatar_fetch :: "path option fetched"
  background_fetch :: "(path \<times> bool) option fetched"
  render_result :: "py_error + path option"
  remove_raises :: "path \<Rightarrow> bool"

text \<open>
  The state the handler works on: the files, the record of the last images of the users
  (\<open>_user_last_images\<close>), what has been yielded, and the calls of the renderer, each with
  the avatar path and the background path it was given.
\<close>

record jrys_state =
  files :: filesystem
  last_images :: "string \<rightharpoonup> (path option \<times> bool)"
  sent :: "reply_msg list"
  renders :: "(path option \<times> path) list"

text \<open>\<open>if ... os.path.exists(p): try: await aiofiles.os.remove(p) except: pass\<close>.\<close>

definition remove_if_exists :: "jrys_world \<Rightarrow> path \<Rightarrow> jrys_state \<Rightarrow> jrys_state" where
  "remove_if_exists w p st =
     (if files st p \<noteq> None \<and> \<not> remove_raises w p
      then st\<lparr>files := (files st)(p := None)\<rparr> else st)"

text \<open>
  The second \<open>try\<close> block with its \<open>finally\<close>: the renderer is called with the two paths;
  its poster is yielded, the record of the user's last image is replaced (an older
  ephemeral background of the user is removed) and takes over the background; at the
  end the poster's temporary file is removed, and the background too if it is ephemeral
  and was not taken over.
\<close>

definition render_and_send ::
  "jrys_world \<Rightarrow> string \<Rightarrow> path option \<Rightarrow> path \<Rightarrow> bool \<Rightarrow> jrys_state \<Rightarrow> jrys_state" where
  "render_and_send w user_id avatar_path background_path background_should_cleanup st0 =
     (let st = st0\<lparr>renders := renders st0 @ [(avatar_path, background_path)]\<rparr> in
      case render_result w of
        Inl e \<Rightarrow>
          (let st1 = st\<lparr>sent := sent st @ [RenderFailed]\<rparr> in
           if background_should_cleanup then remove_if_exists w background_path st1 else st1)
      | Inr None \<Rightarrow>
          (let st1 = st\<lparr>sent := sent st @ [RenderFailed]\<rparr> in
           if background_should_cleanup then remove_if_exists w background_path st1 else st1)
      | Inr (Some temp_file_path) \<Rightarrow>
          (let st1 = st\<lparr>files := (files st)(temp_file_path \<mapsto> ''jpeg''),
                          sent := sent st @ [ImageResult temp_file_path]\<rparr>;
               st2 = (case last_images st1 user_id of
                        Some (Some old_path, True) \<Rightarrow>
                          if old_path \<noteq> background_path then remove_if_exists w old_path st1
                          else st1
                      | _ \<Rightarrow> st1);
               st3 = st2\<lparr>last_images :=
                         (last_images st2)(user_id \<mapsto> (Some background_path,
                                                        background_should_cleanup))\<rparr>
           in remove_if_exists w temp_file_path st3))"

text \<open>
  \<open>isinstance(x, Exception)\<close> on an exception that \<open>gather\<close> returned: CancelledError is a
  BaseException and no Exception.
\<close>

definition is_exception :: "py_error \<Rightarrow> bool" where
  "is_exception e = (e \<noteq> CancelledError)"

text \<open>
  The handler: both fetches are awaited together; the result of the background fetch is
  checked for an Exception and for None, the result of the avatar fetch for an
  Exception; then the poster is rendered. A background result that is a CancelledError
  passes both checks, and unpacking it as a pair raises a TypeError that the handler of
  the first \<open>try\<close> answers with its own message. An avatar result that is a CancelledError
  passes its check and is handed to the renderer in the place of the avatar path: it is
  no path, and the model records none.
\<close>

definition jrys :: "jrys_world \<Rightarrow> string \<Rightarrow> jrys_state \<Rightarrow> jrys_state" where
  "jrys w user_id st =
     (case background_fetch w of
        Raised e \<Rightarrow>
          if is_exception e then st\<lparr>sent := sent st @ [BackgroundFailed]\<rparr>
          else st\<lparr>sent := sent st @ [FetchFailed]\<rparr>
      | Returned None \<Rightarrow> st\<lparr>sent := sent st @ [BackgroundFailed]\<rparr>
      | Returned (Some (background_path, background_should_cleanup)) \<Rightarrow>
          (case avatar_fetch w of
             Raised e \<Rightarrow>
               if is_exception e
               then (let st1 = st\<lparr>sent := sent st @ [AvatarFailed]\<rparr> in
                     if background_should_cleanup then remove_if_exists w background_path st1
                     else st1)
               else render_and_send w user_id None background_path
                      background_should_cleanup st
           | Returned avatar_path \<Rightarrow>
               render_and_send w user_id avatar_path background_path
                 background_should_cleanup st))"

text \<open>
  A request whose avatar fetch returns None (the download of the avatar failed), with an
  ephemeral background fetched and a renderer that returns a poster.
\<close>

definition avatar_none_world :: jrys_world where
  "avatar_none_world =
     \<lparr>avatar_fetch = Returned None,
      background_fetch = Returned (Some ((''background_images_tmp'', ''token.jpg''), True)),
      render_result = Inr (Some (''tmp'', ''poster.jpg'')),
      remove_raises = (\<lambda>p. False)\<rparr>"

definition one_background_state :: jrys_state where
  "one_background_state =
     \<lparr>files = [(''background_images_tmp'', ''token.jpg'') \<mapsto> ''img''],
      last_images = Map.empty, sent = [], renders = []\<rparr>"

section \<open>Properties\<close>

subsection \<open>Word wrap\<close>











subsection \<open>Fortune selection\<close>

lemma int_keys_total:
  assumes "\<forall>k\<in>set ks. \<exists>v. py_int k = Inr v"
  shows "\<exists>vs. int_keys ks = Inr vs"
  using assms
proof (induction ks)
  case Nil
  then show ?case by simp
next
  case (Cons k ks)
  then obtain v vs where "py_int k = Inr v" "int_keys ks = Inr vs" by auto
  then show ?case by simp
qed

lemma int_keys_length: "int_keys ks = Inr vs \<Longrightarrow> length vs = length ks"
  by (induction ks arbitrary: vs) (auto split: sum.splits)


lemma truediv_pos: "0 < n \<Longrightarrow> truediv a n = Inr (of_int a / of_nat n)"
  by (simp add: truediv_def)

lemma weights_loop_map:
  "weights_loop cr g n b vals = Inr (map (weight_of cr g n b) vals)"
proof (induction vals)
  case Nil
  then show ?case by simp
next
  case (Cons v vals)
  have "truediv (rates_get cr ''good'' 40) (max g 1)
      = Inr (of_int (rates_get cr ''good'' 40) / of_nat (max g 1))"
    "truediv (rates_get cr ''normal'' 40) (max n 1)
      = Inr (of_int (rates_get cr ''normal'' 40) / of_nat (max n 1))"
    "truediv (rates_get cr ''bad'' 20) (max b 1)
      = Inr (of_int (rates_get cr ''bad'' 20) / of_nat (max b 1))"
    by (simp_all add: truediv_pos)
  with Cons show ?case
    by (simp add: weight_of_def del: of_nat_max)
qed

lemma filter_zip_count:
  "length ks = length vs \<Longrightarrow>
     length (filter (\<lambda>(k, v). P v) (zip ks vs)) = length (filter P vs)"
  by (induction ks vs rule: list_induct2) auto

lemma accumulate_from_length: "length (accumulate_from t ws) = length ws"
  by (induction ws arbitrary: t) auto

lemma accumulate_from_last_Cons:
  "last (t # accumulate_from t ws) = t + sum_list ws"
  by (induction ws arbitrary: t) (simp_all add: add.assoc)

lemma accumulate_last: "ws \<noteq> [] \<Longrightarrow> last (accumulate ws) = sum_list ws"
  using accumulate_from_last_Cons [of "hd ws" "tl ws"]
  by (cases ws) (simp_all add: accumulate_def)

lemma bisect_bounds: "lo \<le> hi \<Longrightarrow> lo \<le> bisect a x lo hi \<and> bisect a x lo hi \<le> hi"
proof (induction a x lo hi rule: bisect.induct)
  case (1 a x lo hi)
  show ?case
  proof (cases "lo < hi")
    case False
    with "1.prems" show ?thesis by (subst bisect.simps, subst bisect.simps) simp
  next
    case True
    let ?mid = "(lo + hi) div 2"
    show ?thesis
    proof (cases "x < a ! ?mid")
      case l: True
      from True have "lo \<le> ?mid" by simp
      from "1.IH"(1) [OF True refl l this]
      have "lo \<le> bisect a x lo ?mid \<and> bisect a x lo ?mid \<le> ?mid" .
      moreover have "bisect a x lo hi = bisect a x lo ?mid"
        using True l by (subst bisect.simps) (simp add: Let_def)
      moreover have "?mid \<le> hi" using True by simp
      ultimately show ?thesis by simp
    next
      case r: False
      from True have "?mid + 1 \<le> hi" by simp
      from "1.IH"(2) [OF True refl r this]
      have "?mid + 1 \<le> bisect a x (?mid + 1) hi \<and> bisect a x (?mid + 1) hi \<le> hi" .
      moreover have "bisect a x lo hi = bisect a x (?mid + 1) hi"
        using True r by (subst bisect.simps) (simp add: Let_def)
      moreover have "lo \<le> ?mid + 1" using True by simp
      ultimately show ?thesis by linarith
    qed
  qed
qed

lemma choices_total:
  assumes "population \<noteq> []" and "length weights = length population"
    and "0 < sum_list weights"
  shows "\<exists>i<length population. choices population weights u = Inr (population ! i)"
proof -
  let ?cum = "accumulate weights"
  from assms have ne: "weights \<noteq> []" by auto
  have len: "length ?cum = length population"
    using assms(2) by (simp add: accumulate_def accumulate_from_length)
  with assms(1) have cne: "?cum \<noteq> []" by auto
  have tot: "last ?cum = sum_list weights"
    using ne by (rule accumulate_last)
  have "bisect ?cum (u * sum_list weights) 0 (length population - 1) \<le> length population - 1"
    using bisect_bounds [of 0 "length population - 1"] by simp
  with assms(1) have "bisect ?cum (u * sum_list weights) 0 (length population - 1)
      < length population"
    by (cases population) auto
  moreover have "choices population weights u
      = Inr (population ! bisect ?cum (u * sum_list weights) 0 (length population - 1))"
    using len cne tot assms(3) by (simp add: choices_def Let_def)
  ultimately show ?thesis by blast
qed

lemma keys_in_category_count:
  "int_keys ks = Inr vs \<Longrightarrow> length (keys_in_category P ks) = length (filter P vs)"
  by (induction ks arbitrary: vs) (auto simp: keys_in_category_def split: sum.splits)

lemma compute_weights_eq:
  assumes "int_keys ks = Inr vs"
  shows "compute_weights cr ks
    = Inr (map (weight_of cr (length (keys_in_category (\<lambda>v. v > 70) ks))
                  (length (keys_in_category (\<lambda>v. 56 \<le> v \<and> v \<le> 70) ks))
                  (length (keys_in_category (\<lambda>v. v < 56) ks))) vs)"
  using assms int_keys_length [OF assms]
  by (simp add: compute_weights_def weights_loop_map filter_zip_count Let_def
      keys_in_category_count [OF assms])

lemma sum_list_replicate_one: "sum_list (replicate n (1::rat)) = of_nat n"
  by (induction n) auto

lemma selection_weights_ok:
  assumes "int_keys ks = Inr vs" and "ks \<noteq> []"
  shows "\<exists>ws. selection_weights cr ks = Inr ws \<and> length ws = length ks \<and> 0 < sum_list ws"
proof -
  from compute_weights_eq [OF assms(1)] obtain cw where
    cw: "compute_weights cr ks = Inr cw" "length cw = length vs" by simp
  show ?thesis
  proof (cases "sum_list cw \<le> 0")
    case True
    with cw assms(2) show ?thesis
      by (simp add: selection_weights_def sum_list_replicate_one)
  next
    case False
    with cw int_keys_length [OF assms(1)] show ?thesis
      by (simp add: selection_weights_def)
  qed
qed

lemma draw_key_total:
  assumes "ks \<noteq> []" and "\<forall>k\<in>set ks. \<exists>v. py_int k = Inr v"
  shows "\<exists>i<length ks. draw_key cr ks u = Inr (ks ! i)"
proof -
  from int_keys_total [OF assms(2)] obtain vs where vs: "int_keys ks = Inr vs" ..
  from selection_weights_ok [OF vs assms(1)] obtain ws where
    ws: "selection_weights cr ks = Inr ws" "length ws = length ks" "0 < sum_list ws"
    by blast
  from choices_total [OF assms(1) ws(2) ws(3)] ws(1) show ?thesis
    by (simp add: draw_key_def)
qed

lemma valid_keys_subset: "set (valid_keys t) \<subseteq> fst ` set t"
  by (auto simp: valid_keys_def)

lemma map_of_valid_key: "k \<in> set (valid_keys t) \<Longrightarrow> map_of t k \<noteq> None"
  using valid_keys_subset [of t] by (auto simp: map_of_eq_None_iff)


lemma three_key_table_keys: "valid_keys three_key_table = [''80'', ''60'', ''30'']"
  by (simp add: valid_keys_def three_key_table_def startswith_def)

lemma three_key_table_ints:
  "py_int ''80'' = Inr 80" "py_int ''60'' = Inr 60" "py_int ''30'' = Inr 30"
  by (simp_all add: py_int_def strip_def is_space_def digit_val_def)

lemma midsummer_rates:
  "current_rates_of default_config midsummer = [''good'' \<mapsto> 40, ''normal'' \<mapsto> 40, ''bad'' \<mapsto> 20]"
  "current_rates_of zero_rates_config midsummer = [''good'' \<mapsto> 0, ''normal'' \<mapsto> 0, ''bad'' \<mapsto> 0]"
  by (simp_all add: current_rates_of_def default_config_def zero_rates_config_def midsummer_def
      strftime_md_def pad2_def digit_char_def)


lemma digit_char_inj: "a < 10 \<Longrightarrow> b < 10 \<Longrightarrow> digit_char a = digit_char b \<Longrightarrow> a = b"
proof -
  have d: "distinct ''0123456789''" by simp
  assume "a < 10" "b < 10" "digit_char a = digit_char b"
  then show ?thesis
    using nth_eq_iff_index_eq [OF d, of a b] by (simp add: digit_char_def)
qed

lemma digits_step: "(x::nat) div 10 = y div 10 \<Longrightarrow> x mod 10 = y mod 10 \<Longrightarrow> x = y"
  by (metis div_mult_mod_eq)

lemma pad2_inj:
  assumes "a < 100" and "b < 100" and "pad2 a = pad2 b"
  shows "a = b"
proof -
  from assms(3) have e: "digit_char (a div 10 mod 10) = digit_char (b div 10 mod 10)"
    "digit_char (a mod 10) = digit_char (b mod 10)"
    by (simp_all add: pad2_def)
  have "a div 10 mod 10 = b div 10 mod 10"
    by (rule digit_char_inj [OF _ _ e(1)]) simp_all
  moreover from assms(1,2) have "a div 10 < 10" "b div 10 < 10" by simp_all
  ultimately have "a div 10 = b div 10" by simp
  moreover have "a mod 10 = b mod 10"
    by (rule digit_char_inj [OF _ _ e(2)]) simp_all
  ultimately show ?thesis by (rule digits_step)
qed

lemma pad4_inj:
  assumes "a < 10000" and "b < 10000" and "pad4 a = pad4 b"
  shows "a = b"
proof -
  from assms(3) have e: "digit_char (a div 1000 mod 10) = digit_char (b div 1000 mod 10)"
    "digit_char (a div 100 mod 10) = digit_char (b div 100 mod 10)"
    "digit_char (a div 10 mod 10) = digit_char (b div 10 mod 10)"
    "digit_char (a mod 10) = digit_char (b mod 10)"
    by (simp_all add: pad4_def)
  have "a div 1000 mod 10 = b div 1000 mod 10"
    by (rule digit_char_inj [OF _ _ e(1)]) simp_all
  moreover from assms(1,2) have "a div 1000 < 10" "b div 1000 < 10" by simp_all
  ultimately have d3: "a div 1000 = b div 1000" by simp
  have m2: "a div 100 mod 10 = b div 100 mod 10"
    by (rule digit_char_inj [OF _ _ e(2)]) simp_all
  have "a div 100 div 10 = b div 100 div 10"
    using d3 by (simp add: div_mult2_eq [symmetric])
  from this m2 have d2: "a div 100 = b div 100" by (rule digits_step)
  have m1: "a div 10 mod 10 = b div 10 mod 10"
    by (rule digit_char_inj [OF _ _ e(3)]) simp_all
  have "a div 10 div 10 = b div 10 div 10"
    using d2 by (simp add: div_mult2_eq [symmetric])
  from this m1 have d1: "a div 10 = b div 10" by (rule digits_step)
  have "a mod 10 = b mod 10"
    by (rule digit_char_inj [OF _ _ e(4)]) simp_all
  with d1 show ?thesis by (rule digits_step)
qed

lemma fortune_seed_inj:
  assumes "valid_date d" and "valid_date d'" and "fortune_seed u d = fortune_seed u d'"
  shows "d = d'"
proof -
  have l: "length (pad4 (year d)) = length (pad4 (year d'))"
    "length (pad2 (month d)) = length (pad2 (month d'))"
    by (simp_all add: pad4_def pad2_def)
  from assms(3) have "pad4 (year d) = pad4 (year d') \<and> pad2 (month d) = pad2 (month d')
      \<and> pad2 (day d) = pad2 (day d')"
    using l by (simp add: fortune_seed_def strftime_Ymd_def)
  moreover from assms(1,2) have "year d < 10000" "year d' < 10000" "month d < 100"
    "month d' < 100" "day d < 100" "day d' < 100"
    by (simp_all add: valid_date_def)
  ultimately have "year d = year d'" "month d = month d'" "day d = day d'"
    by (blast intro: pad4_inj pad2_inj)+
  then show ?thesis by simp
qed

text \<open>
  The selection returns the drawn key and index when the key's list of entries is not
  empty and \<open>_randbelow\<close> stays below its bound.
\<close>

lemma select_fortune_some:
  assumes "rng = (if fixed_daily_fortune cfg then seed_str ops (fortune_seed user_id today)
                  else fresh)"
    and "draw_key (current_rates_of cfg today) (valid_keys t) (fst (random ops rng)) = Inr key_1"
    and "map_of t key_1 = Some entries" and "entries \<noteq> []"
    and "fst (randbelow ops (length entries) (snd (random ops rng))) < length entries"
  shows "select_fortune cfg ops fresh user_id today t
    = Some (key_1, fst (randbelow ops (length entries) (snd (random ops rng))))"
proof -
  from assms(3) have "t \<noteq> []" by auto
  with assms show ?thesis
    by (simp add: select_fortune_def Let_def case_prod_beta choice_def)
qed

text \<open>
  On a table with a non-metadata key, whose non-metadata keys all parse as integers and
  all have at least one entry, and with a generator whose \<open>_randbelow(n)\<close> is below \<open>n\<close> (as
  that of \<open>random.Random\<close> is), the selection returns the key drawn with the first number
  of the generator and the index drawn with its next state.
\<close>

lemma select_fortune_valid_table:
  assumes "valid_keys t \<noteq> []"
    and "\<forall>k\<in>set (valid_keys t). \<exists>v. py_int k = Inr v"
    and "\<forall>k\<in>set (valid_keys t). \<forall>entries. map_of t k = Some entries \<longrightarrow> entries \<noteq> []"
    and "\<forall>n g. 0 < n \<longrightarrow> fst (randbelow ops n g) < n"
    and "rng = (if fixed_daily_fortune cfg then seed_str ops (fortune_seed user_id today)
                else fresh)"
  shows "\<exists>key_1 entries. draw_key (current_rates_of cfg today) (valid_keys t)
              (fst (random ops rng)) = Inr key_1
            \<and> key_1 \<in> set (valid_keys t) \<and> map_of t key_1 = Some entries
            \<and> fst (randbelow ops (length entries) (snd (random ops rng))) < length entries
            \<and> select_fortune cfg ops fresh user_id today t
                = Some (key_1, fst (randbelow ops (length entries) (snd (random ops rng))))"
proof -
  let ?ks = "valid_keys t" and ?cr = "current_rates_of cfg today"
  from draw_key_total [OF assms(1,2), of ?cr "fst (random ops rng)"] obtain i where
    i: "i < length ?ks" "draw_key ?cr ?ks (fst (random ops rng)) = Inr (?ks ! i)" by blast
  let ?k = "?ks ! i"
  from i(1) have m: "?k \<in> set ?ks" by simp
  from map_of_valid_key [OF m] obtain entries where e: "map_of t ?k = Some entries" by blast
  from assms(3) m e have ne: "entries \<noteq> []" by blast
  with assms(4) have b: "fst (randbelow ops (length entries) (snd (random ops rng)))
      < length entries"
    by simp
  from select_fortune_some [OF assms(5) i(2) e ne b] i(2) m e b show ?thesis by blast
qed

text \<open>The draws of the example generator on the example table, and the example dates.\<close>

lemma example_draw_default:
  "draw_key (current_rates_of default_config midsummer) (valid_keys three_key_table) (1 / 2)
     = Inr ''60''"
  by (simp add: draw_key_def selection_weights_def compute_weights_def three_key_table_keys
      three_key_table_ints midsummer_rates rates_get_def truediv_def choices_def accumulate_def
      bisect.simps Let_def)

lemma example_draw_zero:
  "draw_key (current_rates_of zero_rates_config midsummer) (valid_keys three_key_table) (1 / 2)
     = Inr ''60''"
  by (simp add: draw_key_def selection_weights_def compute_weights_def three_key_table_keys
      three_key_table_ints midsummer_rates rates_get_def truediv_def choices_def accumulate_def
      bisect.simps Let_def)

lemma example_dates:
  "strftime_Ymd midsummer = ''2024-06-15''" "strftime_Ymd new_year = ''2024-01-01''"
  by (simp_all add: strftime_Ymd_def midsummer_def new_year_def pad4_def pad2_def digit_char_def)

lemma example_rng_below: "\<forall>n g. 0 < n \<longrightarrow> fst (randbelow example_rng n g) < n"
  by (simp add: example_rng_def)

lemma three_key_table_entries:
  "\<forall>k\<in>set (valid_keys three_key_table). \<forall>entries.
      map_of three_key_table k = Some entries \<longrightarrow> entries \<noteq> []"
  unfolding three_key_table_keys by (simp add: three_key_table_def)

text \<open>
  Claim C2, as the code has it. For a table with at least one non-metadata key, all of
  whose non-metadata keys parse as integers and have at least one entry each: when the
  three rates of the day are 0, every computed weight is 0 (each division is by a
  category size floored at 1, so none raises ZeroDivisionError), their sum is not
  positive, the weights of the draw are 1 for every key, the draw returns a key of the
  table, and the selection returns that key with an index into its list of entries: it
  does not return null. The generator is any whose \<open>_randbelow(n)\<close> is below \<open>n\<close>, as that
  of \<open>random.Random\<close> is.
\<close>

theorem zero_rates_uniform_fallback:
  assumes "valid_keys t \<noteq> []"
    and "\<forall>k\<in>set (valid_keys t). \<exists>v. py_int k = Inr v"
    and "\<forall>k\<in>set (valid_keys t). \<forall>entries. map_of t k = Some entries \<longrightarrow> entries \<noteq> []"
    and "current_rates_of cfg today ''good'' = Some 0"
    and "current_rates_of cfg today ''normal'' = Some 0"
    and "current_rates_of cfg today ''bad'' = Some 0"
    and "\<forall>n g. 0 < n \<longrightarrow> fst (randbelow ops n g) < n"
  shows "compute_weights (current_rates_of cfg today) (valid_keys t)
        = Inr (replicate (length (valid_keys t)) 0)
    \<and> sum_list (replicate (length (valid_keys t)) (0::rat)) \<le> 0
    \<and> selection_weights (current_rates_of cfg today) (valid_keys t)
        = Inr (replicate (length (valid_keys t)) 1)
    \<and> (\<exists>key_1. draw_key (current_rates_of cfg today) (valid_keys t) u = Inr key_1
          \<and> key_1 \<in> set (valid_keys t) \<and> map_of t key_1 \<noteq> None)
    \<and> (\<exists>key_1 key_2 entries.
          select_fortune cfg ops fresh user_id today t = Some (key_1, key_2)
          \<and> key_1 \<in> set (valid_keys t) \<and> map_of t key_1 = Some entries
          \<and> key_2 < length entries)"
proof -
  let ?ks = "valid_keys t" and ?cr = "current_rates_of cfg today"
  from int_keys_total [OF assms(2)] obtain vs where vs: "int_keys ?ks = Inr vs" ..
  note len = int_keys_length [OF vs]
  have w0: "weight_of ?cr g n b v = 0" for g n b v
    using assms(4-6) by (simp add: weight_of_def rates_get_def)
  have "map (weight_of ?cr g n b) vs = replicate (length vs) 0" for g n b
    by (induction vs) (simp_all add: w0)
  with compute_weights_eq [OF vs, of ?cr] len
  have cw: "compute_weights ?cr ?ks = Inr (replicate (length ?ks) 0)" by simp
  have "sum_list (replicate m (0::rat)) = 0" for m by (induction m) simp_all
  then have s0: "sum_list (replicate (length ?ks) (0::rat)) \<le> 0" by simp
  from cw s0 have sw: "selection_weights ?cr ?ks = Inr (replicate (length ?ks) 1)"
    by (simp add: selection_weights_def)
  have drawn: "\<exists>key_1. draw_key ?cr ?ks u = Inr key_1 \<and> key_1 \<in> set ?ks
      \<and> map_of t key_1 \<noteq> None"
  proof -
    from draw_key_total [OF assms(1,2), of ?cr u] obtain i where
      i: "i < length ?ks" "draw_key ?cr ?ks u = Inr (?ks ! i)" by blast
    from i(1) have "?ks ! i \<in> set ?ks" by simp
    with i(2) map_of_valid_key [of "?ks ! i" t] show ?thesis by blast
  qed
  from select_fortune_valid_table [OF assms(1-3) assms(7) refl,
      where cfg = cfg and user_id = user_id and today = today and fresh = fresh]
  have sel: "\<exists>key_1 key_2 entries.
          select_fortune cfg ops fresh user_id today t = Some (key_1, key_2)
          \<and> key_1 \<in> set ?ks \<and> map_of t key_1 = Some entries \<and> key_2 < length entries"
    by blast
  from cw s0 sw drawn sel show ?thesis by blast
qed

theorem zero_rates_uniform_fallback_witness:
  "compute_weights (current_rates_of zero_rates_config midsummer) (valid_keys three_key_table)
        = Inr [0, 0, 0]
    \<and> selection_weights (current_rates_of zero_rates_config midsummer) (valid_keys three_key_table)
        = Inr [1, 1, 1]
    \<and> draw_key (current_rates_of zero_rates_config midsummer) (valid_keys three_key_table) (1 / 2)
        = Inr ''60''
    \<and> select_fortune zero_rates_config example_rng 0 ''u1'' midsummer three_key_table
        = Some (''60'', 0)"
proof -
  have ne: "valid_keys three_key_table \<noteq> []" by (simp add: three_key_table_keys)
  have parse: "\<forall>k\<in>set (valid_keys three_key_table). \<exists>v. py_int k = Inr v"
    by (simp add: three_key_table_keys three_key_table_ints)
  have z: "current_rates_of zero_rates_config midsummer ''good'' = Some 0"
    "current_rates_of zero_rates_config midsummer ''normal'' = Some 0"
    "current_rates_of zero_rates_config midsummer ''bad'' = Some 0"
    by (simp_all add: midsummer_rates)
  have r: "replicate (length (valid_keys three_key_table)) (0::rat) = [0, 0, 0]"
    "replicate (length (valid_keys three_key_table)) (1::rat) = [1, 1, 1]"
    by (simp_all add: three_key_table_keys numeral_3_eq_3)
  note t = zero_rates_uniform_fallback [OF ne parse three_key_table_entries z example_rng_below,
      where user_id = "''u1''" and fresh = 0 and u = "1 / 2"]
  from t r have first: "compute_weights (current_rates_of zero_rates_config midsummer)
        (valid_keys three_key_table) = Inr [0, 0, 0]
    \<and> selection_weights (current_rates_of zero_rates_config midsummer) (valid_keys three_key_table)
        = Inr [1, 1, 1]"
    by simp
  have f: "fixed_daily_fortune zero_rates_config"
    by (simp add: zero_rates_config_def default_config_def)
  have s: "seed_str example_rng (fortune_seed ''u1'' midsummer) = 13"
    by (simp add: example_rng_def fortune_seed_def example_dates)
  have rnd: "random example_rng 13 = (1 / 2, 14)" by (simp add: example_rng_def)
  have m: "map_of three_key_table ''60'' = Some [(), ()]" by (simp add: three_key_table_def)
  have b: "fst (randbelow example_rng (Suc (Suc 0)) 14) = 0"
    by (simp add: example_rng_def numeral_2_eq_2 [symmetric])
  have "select_fortune zero_rates_config example_rng 0 ''u1'' midsummer three_key_table
        = Some (''60'', 0)"
    using select_fortune_some [of 13 zero_rates_config example_rng "''u1''" midsummer 0
        three_key_table "''60''" "[(), ()]"]
    by (simp add: f s rnd example_draw_zero m b)
  with first example_draw_zero show ?thesis by blast
qed

text \<open>
  Where claim C2 as stated fails: a table whose one key, an integer, has an empty list of
  entries. With the three rates at 0 the weight of the key is 1 and the key is drawn, but
  \<open>rng.choice\<close> of the empty list of indices raises IndexError, and the selection returns
  null.
\<close>

theorem zero_rates_empty_entries_counterexample:
  "valid_keys empty_entries_table = [''80'']
   \<and> py_int ''80'' = Inr 80
   \<and> current_rates_of zero_rates_config midsummer ''good'' = Some 0
   \<and> current_rates_of zero_rates_config midsummer ''normal'' = Some 0
   \<and> current_rates_of zero_rates_config midsummer ''bad'' = Some 0
   \<and> selection_weights (current_rates_of zero_rates_config midsummer)
        (valid_keys empty_entries_table) = Inr [1]
   \<and> draw_key (current_rates_of zero_rates_config midsummer) (valid_keys empty_entries_table)
        (1 / 2) = Inr ''80''
   \<and> map_of empty_entries_table ''80'' = Some []
   \<and> choice example_rng 14 [0..<length ([] :: unit list)] = Inl IndexError
   \<and> select_fortune zero_rates_config example_rng 0 ''u1'' midsummer empty_entries_table = None"
proof -
  have k: "valid_keys empty_entries_table = [''80'']"
    by (simp add: valid_keys_def startswith_def empty_entries_table_def)
  have p: "py_int ''80'' = Inr 80" by (rule three_key_table_ints)
  have sw: "selection_weights (current_rates_of zero_rates_config midsummer) [''80''] = Inr [1]"
    by (simp add: selection_weights_def compute_weights_def p midsummer_rates rates_get_def
        truediv_def)
  have d: "draw_key (current_rates_of zero_rates_config midsummer) [''80''] u = Inr ''80''" for u
    by (simp add: draw_key_def sw choices_def accumulate_def bisect.simps)
  have m: "map_of empty_entries_table ''80'' = Some []" by (simp add: empty_entries_table_def)
  have c: "choice example_rng 14 [0..<length ([] :: unit list)] = Inl IndexError"
    by (simp add: choice_def)
  have ne: "empty_entries_table \<noteq> []" by (simp add: empty_entries_table_def)
  have "select_fortune zero_rates_config example_rng 0 ''u1'' midsummer empty_entries_table = None"
    by (simp add: select_fortune_def ne k d m choice_def case_prod_beta)
  with k p sw d [of "1 / 2"] m c show ?thesis
    by (simp add: midsummer_rates)
qed

text \<open>
  Claim C10. For a table with at least one non-metadata key, all of whose non-metadata
  keys parse as integers, the weights of the draw are as many as the non-metadata keys,
  and the weighted choice returns a key that is a key of the table: the lookup of the
  drawn key never fails, so the branch that returns null for an absent key is never
  taken.
\<close>

theorem drawn_key_in_table:
  assumes "valid_keys t \<noteq> []"
    and "\<forall>k\<in>set (valid_keys t). \<exists>v. py_int k = Inr v"
  shows "(\<exists>ws. selection_weights (current_rates_of cfg today) (valid_keys t) = Inr ws
            \<and> length ws = length (valid_keys t))
    \<and> (\<exists>key_1. draw_key (current_rates_of cfg today) (valid_keys t) u = Inr key_1
            \<and> key_1 \<in> fst ` set t \<and> map_of t key_1 \<noteq> None)"
proof -
  let ?ks = "valid_keys t" and ?cr = "current_rates_of cfg today"
  from int_keys_total [OF assms(2)] obtain vs where vs: "int_keys ?ks = Inr vs" ..
  from selection_weights_ok [OF vs assms(1), of ?cr]
  have "\<exists>ws. selection_weights ?cr ?ks = Inr ws \<and> length ws = length ?ks" by blast
  moreover from draw_key_total [OF assms(1,2), of ?cr u] obtain i where
    i: "i < length ?ks" "draw_key ?cr ?ks u = Inr (?ks ! i)" by blast
  from i(1) have m: "?ks ! i \<in> set ?ks" by simp
  with valid_keys_subset [of t] have "?ks ! i \<in> fst ` set t" by blast
  with i(2) map_of_valid_key [OF m]
  have "\<exists>key_1. draw_key ?cr ?ks u = Inr key_1 \<and> key_1 \<in> fst ` set t \<and> map_of t key_1 \<noteq> None"
    by blast
  ultimately show ?thesis by blast
qed

theorem drawn_key_in_table_witness:
  "(\<exists>ws. selection_weights (current_rates_of default_config midsummer)
            (valid_keys three_key_table) = Inr ws \<and> length ws = 3)
    \<and> (\<exists>key_1. draw_key (current_rates_of default_config midsummer)
                   (valid_keys three_key_table) (85 / 100) = Inr key_1
            \<and> key_1 \<in> fst ` set three_key_table \<and> map_of three_key_table key_1 \<noteq> None)"
proof -
  have ne: "valid_keys three_key_table \<noteq> []" by (simp add: three_key_table_keys)
  have parse: "\<forall>k\<in>set (valid_keys three_key_table). \<exists>v. py_int k = Inr v"
    by (simp add: three_key_table_keys three_key_table_ints)
  have l: "length (valid_keys three_key_table) = 3" by (simp add: three_key_table_keys)
  from drawn_key_in_table [OF ne parse, of default_config midsummer "85 / 100"] l
  show ?thesis by simp
qed

text \<open>
  Claim C1. With the fixed daily fortune enabled, a run of the selection is the run that
  starts, with the option disabled, from the generator seeded with the string made of the
  user id, a hyphen and the date as year-month-day: so two runs for the same user, date
  and table return the same key and the same entry index, whatever state the fresh
  generator of each run starts in. On a table with a non-metadata key, whose non-metadata
  keys all parse as integers and have at least one entry each, both runs return the key
  drawn with the first number of the seeded generator and the index drawn with its next
  state. For two different dates the seed strings of one user differ.
\<close>

theorem daily_fortune_deterministic:
  "(fixed_daily_fortune cfg \<longrightarrow>
      select_fortune cfg ops fresh1 user_id today t
        = select_fortune (cfg\<lparr>fixed_daily_fortune := False\<rparr>) ops
            (seed_str ops (user_id @ ''-'' @ strftime_Ymd today)) user_id today t
      \<and> select_fortune cfg ops fresh1 user_id today t
        = select_fortune cfg ops fresh2 user_id today t)
   \<and> (fixed_daily_fortune cfg
        \<and> valid_keys t \<noteq> []
        \<and> (\<forall>k\<in>set (valid_keys t). \<exists>v. py_int k = Inr v)
        \<and> (\<forall>k\<in>set (valid_keys t). \<forall>entries. map_of t k = Some entries \<longrightarrow> entries \<noteq> [])
        \<and> (\<forall>n g. 0 < n \<longrightarrow> fst (randbelow ops n g) < n) \<longrightarrow>
        (\<exists>key_1 entries.
            draw_key (current_rates_of cfg today) (valid_keys t)
              (fst (random ops (seed_str ops (user_id @ ''-'' @ strftime_Ymd today)))) = Inr key_1
            \<and> map_of t key_1 = Some entries
            \<and> fst (randbelow ops (length entries)
                 (snd (random ops (seed_str ops (user_id @ ''-'' @ strftime_Ymd today)))))
                < length entries
            \<and> select_fortune cfg ops fresh1 user_id today t
                = Some (key_1, fst (randbelow ops (length entries)
                    (snd (random ops (seed_str ops (user_id @ ''-'' @ strftime_Ymd today))))))
            \<and> select_fortune cfg ops fresh2 user_id today t
                = Some (key_1, fst (randbelow ops (length entries)
                    (snd (random ops (seed_str ops (user_id @ ''-'' @ strftime_Ymd today))))))))
   \<and> (valid_date d \<and> valid_date d' \<and> d \<noteq> d' \<longrightarrow>
        user_id @ ''-'' @ strftime_Ymd d \<noteq> user_id @ ''-'' @ strftime_Ymd d')"
proof -
  let ?seeded = "seed_str ops (user_id @ ''-'' @ strftime_Ymd today)"
  have pin: "select_fortune cfg ops fresh user_id today t
        = select_fortune (cfg\<lparr>fixed_daily_fortune := False\<rparr>) ops ?seeded user_id today t"
    if "fixed_daily_fortune cfg" for fresh
    using that by (simp add: select_fortune_def fortune_seed_def current_rates_of_def)
  have same: "select_fortune cfg ops fresh1 user_id today t
        = select_fortune cfg ops fresh2 user_id today t"
    if "fixed_daily_fortune cfg"
    using pin [OF that, of fresh1] pin [OF that, of fresh2] by simp
  have chosen: "\<exists>key_1 entries.
            draw_key (current_rates_of cfg today) (valid_keys t) (fst (random ops ?seeded))
              = Inr key_1
            \<and> map_of t key_1 = Some entries
            \<and> fst (randbelow ops (length entries) (snd (random ops ?seeded))) < length entries
            \<and> select_fortune cfg ops fresh1 user_id today t
                = Some (key_1, fst (randbelow ops (length entries) (snd (random ops ?seeded))))
            \<and> select_fortune cfg ops fresh2 user_id today t
                = Some (key_1, fst (randbelow ops (length entries) (snd (random ops ?seeded))))"
    if a: "fixed_daily_fortune cfg" "valid_keys t \<noteq> []"
      "\<forall>k\<in>set (valid_keys t). \<exists>v. py_int k = Inr v"
      "\<forall>k\<in>set (valid_keys t). \<forall>entries. map_of t k = Some entries \<longrightarrow> entries \<noteq> []"
      "\<forall>n g. 0 < n \<longrightarrow> fst (randbelow ops n g) < n"
  proof -
    have r: "?seeded = (if fixed_daily_fortune cfg then seed_str ops (fortune_seed user_id today)
                else fresh1)"
      using a(1) by (simp add: fortune_seed_def)
    from select_fortune_valid_table [OF a(2-5) r] obtain key_1 entries where
      k: "draw_key (current_rates_of cfg today) (valid_keys t) (fst (random ops ?seeded))
            = Inr key_1"
        "map_of t key_1 = Some entries"
        "fst (randbelow ops (length entries) (snd (random ops ?seeded))) < length entries"
        "select_fortune cfg ops fresh1 user_id today t
           = Some (key_1, fst (randbelow ops (length entries) (snd (random ops ?seeded))))"
      by blast
    from k(4) same [OF a(1)]
    have "select_fortune cfg ops fresh2 user_id today t
           = Some (key_1, fst (randbelow ops (length entries) (snd (random ops ?seeded))))"
      by simp
    with k show ?thesis by blast
  qed
  have differ: "user_id @ ''-'' @ strftime_Ymd d \<noteq> user_id @ ''-'' @ strftime_Ymd d'"
    if "valid_date d" "valid_date d'" "d \<noteq> d'"
    using fortune_seed_inj [of d d' user_id] that by (auto simp: fortune_seed_def)
  from pin [of fresh1] same chosen differ show ?thesis by blast
qed

theorem daily_fortune_deterministic_witness:
  "select_fortune default_config example_rng 0 ''u1'' midsummer three_key_table = Some (''60'', 0)
   \<and> select_fortune default_config example_rng 7 ''u1'' midsummer three_key_table
       = Some (''60'', 0)
   \<and> select_fortune (default_config\<lparr>fixed_daily_fortune := False\<rparr>) example_rng
        (seed_str example_rng ''u1-2024-06-15'') ''u1'' midsummer three_key_table
       = Some (''60'', 0)
   \<and> ''u1-2024-06-15'' \<noteq> ''u1-2024-01-01''"
proof -
  have f: "fixed_daily_fortune default_config" by (simp add: default_config_def)
  have ne: "valid_keys three_key_table \<noteq> []" by (simp add: three_key_table_keys)
  have parse: "\<forall>k\<in>set (valid_keys three_key_table). \<exists>v. py_int k = Inr v"
    by (simp add: three_key_table_keys three_key_table_ints)
  have v: "valid_date midsummer" "valid_date new_year" "midsummer \<noteq> new_year"
    by (simp_all add: valid_date_def new_year_def midsummer_def)
  note t = daily_fortune_deterministic [where cfg = default_config and ops = example_rng
      and ?fresh1.0 = 0 and ?fresh2.0 = 7 and user_id = "''u1''" and today = midsummer
      and t = three_key_table and d = midsummer and d' = new_year]
  have s: "seed_str example_rng ''u1-2024-06-15'' = 13" by (simp add: example_rng_def)
  have rnd: "random example_rng 13 = (1 / 2, 14)" by (simp add: example_rng_def)
  from t f ne parse three_key_table_entries example_rng_below obtain key_1 entries where
    k: "draw_key (current_rates_of default_config midsummer) (valid_keys three_key_table)
          (fst (random example_rng (seed_str example_rng (''u1'' @ ''-'' @ strftime_Ymd midsummer))))
          = Inr key_1"
      "map_of three_key_table key_1 = Some entries"
      "select_fortune default_config example_rng 0 ''u1'' midsummer three_key_table
         = Some (key_1, fst (randbelow example_rng (length entries)
             (snd (random example_rng
                (seed_str example_rng (''u1'' @ ''-'' @ strftime_Ymd midsummer))))))"
      "select_fortune default_config example_rng 7 ''u1'' midsummer three_key_table
         = Some (key_1, fst (randbelow example_rng (length entries)
             (snd (random example_rng
                (seed_str example_rng (''u1'' @ ''-'' @ strftime_Ymd midsummer))))))"
    by blast
  from k(1) have k1: "key_1 = ''60''"
    by (simp add: example_dates s rnd example_draw_default)
  with k(2) have e: "entries = [(), ()]" by (simp add: three_key_table_def)
  have b: "fst (randbelow example_rng (Suc (Suc 0)) 14) = 0"
    by (simp add: example_rng_def numeral_2_eq_2 [symmetric])
  have i: "fst (randbelow example_rng (length entries)
             (snd (random example_rng
                (seed_str example_rng (''u1'' @ ''-'' @ strftime_Ymd midsummer))))) = 0"
    by (simp add: example_dates s rnd e b)
  from k(3,4) k1 i have c12:
    "select_fortune default_config example_rng 0 ''u1'' midsummer three_key_table = Some (''60'', 0)"
    "select_fortune default_config example_rng 7 ''u1'' midsummer three_key_table = Some (''60'', 0)"
    by simp_all
  from t f have "select_fortune default_config example_rng 0 ''u1'' midsummer three_key_table
       = select_fortune (default_config\<lparr>fixed_daily_fortune := False\<rparr>) example_rng
           (seed_str example_rng (''u1'' @ ''-'' @ strftime_Ymd midsummer)) ''u1'' midsummer
           three_key_table"
    by blast
  with c12(1) have c3: "select_fortune (default_config\<lparr>fixed_daily_fortune := False\<rparr>) example_rng
        (seed_str example_rng ''u1-2024-06-15'') ''u1'' midsummer three_key_table
       = Some (''60'', 0)"
    by (simp add: example_dates)
  from t v have "''u1'' @ ''-'' @ strftime_Ymd midsummer \<noteq> ''u1'' @ ''-'' @ strftime_Ymd new_year"
    by blast
  then have c4: "''u1-2024-06-15'' \<noteq> ''u1-2024-01-01''"
    by (simp add: example_dates)
  from c12 c3 c4 show ?thesis by blast
qed

subsection \<open>Download\<close>

lemma tmp_path_neq_dest: "tmp_path_of dest token \<noteq> dest"
  by (cases dest) (simp add: tmp_path_of_def)

lemma handle_exception_fs: "handle_exception e n r st = (out, st') \<Longrightarrow> fs st' = fs st \<and> out \<noteq> Return True"
  by (auto simp: handle_exception_def split: if_splits)

lemma upd_del_fresh: "m k = None \<Longrightarrow> (m(k \<mapsto> v))(k := None) = m"
  by (rule ext) simp

text \<open>One attempt with its \<open>finally\<close>, when removing the temporary file does not raise.\<close>

lemma attempt_fs:
  assumes "\<not> unlink_raises a" and "fs st tmp = None" and "tmp \<noteq> dest"
    and "try_attempt a dest tmp n r st = (out, st1)"
  shows "(out \<noteq> Return True \<longrightarrow> fs (finally_cleanup a tmp st1) = fs st)
    \<and> (out = Return True \<longrightarrow>
          (\<exists>status chunks. reply a = Inr (status, Stream chunks None)
              \<and> 200 \<le> status \<and> status < 300
              \<and> fs (finally_cleanup a tmp st1) = (fs st)(dest \<mapsto> concat chunks)))"
proof (cases "reply a")
  case (Inl e)
  with assms(4) have "handle_exception e n r (st\<lparr>trace := trace st @ [Request n]\<rparr>) = (out, st1)"
    by (simp add: try_attempt_def)
  from handle_exception_fs [OF this] assms(2) show ?thesis
    by (simp add: finally_cleanup_def)
next
  case (Inr sc)
  obtain status content where sc: "sc = (status, content)" by (cases sc)
  show ?thesis
  proof (cases "status < 200 \<or> status \<ge> 300")
    case True
    with assms(4) Inr sc have "fs st1 = fs st" "out \<noteq> Return True"
      by (auto simp: try_attempt_def Let_def split: if_splits)
    with assms(2) show ?thesis by (simp add: finally_cleanup_def)
  next
    case ok: False
    show ?thesis
    proof (cases content)
      case (OpenRaises e)
      with assms(4) Inr sc ok
      have "handle_exception e n r (st\<lparr>trace := trace st @ [Request n]\<rparr>) = (out, st1)"
        by (simp add: try_attempt_def)
      from handle_exception_fs [OF this] assms(2) show ?thesis
        by (simp add: finally_cleanup_def)
    next
      case (Stream chunks ending)
      let ?st1 = "st\<lparr>trace := trace st @ [Request n], fs := (fs st)(tmp \<mapsto> concat chunks)\<rparr>"
      show ?thesis
      proof (cases "ending = None \<and> replace_raises a = None")
        case True
        with assms(4) Inr sc ok Stream have
          "out = Return True"
          "st1 = ?st1\<lparr>fs := (fs ?st1)(tmp := None, dest \<mapsto> concat chunks)\<rparr>"
          by (auto simp: try_attempt_def Let_def)
        with assms(2,3) Inr sc ok Stream True show ?thesis
          by (auto simp: finally_cleanup_def upd_del_fresh)
      next
        case False
        then obtain e where "handle_exception e n r ?st1 = (out, st1)"
          using assms(4) Inr sc ok Stream
          by (auto simp: try_attempt_def Let_def split: option.splits)
        from handle_exception_fs [OF this] assms(1,2) show ?thesis
          by (auto simp: finally_cleanup_def upd_del_fresh)
      qed
    qed
  qed
qed

lemma attempts_loop_fs:
  assumes "\<forall>i\<in>set ns. \<not> unlink_raises (world i)"
    and "\<forall>i\<in>set ns. fs st (tmp_path_of dest (tmp_token (world i))) = None"
    and "attempts_loop world dest r ns st = (res, st')"
  shows "(res \<noteq> Inr True \<longrightarrow> fs st' = fs st)
    \<and> (res = Inr True \<longrightarrow>
          (\<exists>i\<in>set ns. \<exists>status chunks. reply (world i) = Inr (status, Stream chunks None)
              \<and> 200 \<le> status \<and> status < 300
              \<and> fs st' = (fs st)(dest \<mapsto> concat chunks)))"
  using assms
proof (induction ns arbitrary: st)
  case Nil
  then show ?case by auto
next
  case (Cons n ns)
  let ?a = "world n"
  let ?tmp = "tmp_path_of dest (tmp_token ?a)"
  obtain out st1 where t: "try_attempt ?a dest ?tmp n r st = (out, st1)"
    by (cases "try_attempt ?a dest ?tmp n r st")
  let ?st2 = "finally_cleanup ?a ?tmp st1"
  from Cons.prems(1,2) have a: "\<not> unlink_raises ?a" "fs st ?tmp = None" by simp_all
  note step = attempt_fs [OF a tmp_path_neq_dest t]
  show ?case
  proof (cases out)
    case (Return b)
    with Cons.prems(3) t have r: "res = Inr b" "st' = ?st2" by (simp_all add: Let_def)
    show ?thesis
    proof (cases b)
      case True
      with step Return obtain status chunks where
        "reply (world n) = Inr (status, Stream chunks None)" "200 \<le> status" "status < 300"
        "fs ?st2 = (fs st)(dest \<mapsto> concat chunks)"
        by blast
      moreover from r True have rt: "res = Inr True" by simp
      ultimately have "\<exists>i\<in>set (n # ns). \<exists>status chunks.
          reply (world i) = Inr (status, Stream chunks None)
              \<and> 200 \<le> status \<and> status < 300
              \<and> fs st' = (fs st)(dest \<mapsto> concat chunks)"
        using r(2) by (intro bexI [of _ n]) auto
      with rt show ?thesis by blast
    next
      case False
      with step Return r show ?thesis by auto
    qed
  next
    case (Raise e)
    with Cons.prems(3) t have "res = Inl e" "st' = ?st2" by (simp_all add: Let_def)
    with step Raise show ?thesis by auto
  next
    case Next
    with Cons.prems(3) t have l: "attempts_loop world dest r ns ?st2 = (res, st')"
      by (simp add: Let_def)
    from step Next have same: "fs ?st2 = fs st" by simp
    from Cons.prems(1) have u: "\<forall>i\<in>set ns. \<not> unlink_raises (world i)" by simp
    from Cons.prems(2) same
    have f: "\<forall>i\<in>set ns. fs ?st2 (tmp_path_of dest (tmp_token (world i))) = None" by simp
    from Cons.IH [OF u f l] same show ?thesis by auto
  qed
qed

text \<open>
  Claim C6, as the code has it. Each attempt streams the body into a temporary file
  beside the destination, named with a fresh token, and the destination is written by
  \<open>os.replace\<close> alone. When removing the temporary file does not itself raise (the code
  swallows such a failure), a download changes no file but the destination, leaves none
  of its temporary files behind, whether it returns True, returns False or raises, and
  changes the destination only when it returns True, to the whole body of a reply with a
  status from 200 to 299.
\<close>

theorem download_leaves_no_tmp:
  assumes "\<forall>i \<le> nat (max 0 retries). \<not> unlink_raises (world i)"
    and "\<forall>i \<le> nat (max 0 retries). fs st (tmp_path_of dest (tmp_token (world i))) = None"
    and "download_to_path mkdir_raises world dest retries st = (res, st')"
  shows "(\<forall>p. p \<noteq> dest \<longrightarrow> fs st' p = fs st p)
    \<and> (\<forall>i \<le> nat (max 0 retries). fs st' (tmp_path_of dest (tmp_token (world i))) = None)
    \<and> (res \<noteq> Inr True \<longrightarrow> fs st' dest = fs st dest)
    \<and> (res = Inr True \<longrightarrow>
          (\<exists>i \<le> nat (max 0 retries). \<exists>status chunks.
              reply (world i) = Inr (status, Stream chunks None)
              \<and> 200 \<le> status \<and> status < 300 \<and> fs st' dest = Some (concat chunks)))"
proof (cases mkdir_raises)
  case True
  with assms(3) have "res = Inl OSError" "st' = st" by (simp_all add: download_to_path_def)
  with assms(2) show ?thesis by simp
next
  case False
  let ?r = "nat (max 0 retries)"
  from False assms(3) have l: "attempts_loop world dest ?r [0..<?r + 1] st = (res, st')"
    by (simp add: download_to_path_def Let_def)
  have s: "set [0..<?r + 1] = {i. i \<le> ?r}" by auto
  from assms(1) s have u: "\<forall>i\<in>set [0..<?r + 1]. \<not> unlink_raises (world i)" by blast
  from assms(2) s
  have f: "\<forall>i\<in>set [0..<?r + 1]. fs st (tmp_path_of dest (tmp_token (world i))) = None"
    by blast
  note k = attempts_loop_fs [OF u f l]
  have other: "\<forall>p. p \<noteq> dest \<longrightarrow> fs st' p = fs st p"
  proof (cases "res = Inr True")
    case True
    with k show ?thesis by auto
  next
    case False
    with k show ?thesis by simp
  qed
  moreover have "\<forall>i \<le> ?r. fs st' (tmp_path_of dest (tmp_token (world i))) = None"
  proof (intro allI impI)
    fix i assume i: "i \<le> ?r"
    from other tmp_path_neq_dest [of dest "tmp_token (world i)"]
    have "fs st' (tmp_path_of dest (tmp_token (world i)))
        = fs st (tmp_path_of dest (tmp_token (world i)))"
      by blast
    with assms(2) i show "fs st' (tmp_path_of dest (tmp_token (world i))) = None" by simp
  qed
  moreover have "res \<noteq> Inr True \<longrightarrow> fs st' dest = fs st dest"
    using k by simp
  moreover have "res = Inr True \<longrightarrow>
          (\<exists>i \<le> ?r. \<exists>status chunks.
              reply (world i) = Inr (status, Stream chunks None)
              \<and> 200 \<le> status \<and> status < 300 \<and> fs st' dest = Some (concat chunks))"
  proof
    assume "res = Inr True"
    with k obtain i status chunks where "i \<in> set [0..<?r + 1]"
      "reply (world i) = Inr (status, Stream chunks None)" "200 \<le> status" "status < 300"
      "fs st' = (fs st)(dest \<mapsto> concat chunks)"
      by blast
    moreover from this(1) s have "i \<le> ?r" by blast
    ultimately show "\<exists>i \<le> ?r. \<exists>status chunks.
              reply (world i) = Inr (status, Stream chunks None)
              \<and> 200 \<le> status \<and> status < 300 \<and> fs st' dest = Some (concat chunks)"
      by (intro exI [of _ i]) auto
  qed
  ultimately show ?thesis by blast
qed

lemma run_503_then_200:
  "download_to_path False world_503_then_200 (''cache'', ''bg.jpg'') 1 empty_state
     = (Inr True, \<lparr>fs = [(''cache'', ''bg.jpg'') \<mapsto> ''img''], trace = [Request 0, Request 1]\<rparr>)"
  by (simp add: download_to_path_def upt_rec [of 0] Let_def world_503_then_200_def reply_503_def
      reply_200_def try_attempt_def finally_cleanup_def tmp_path_of_def empty_state_def
      handle_exception_def)

theorem download_leaves_no_tmp_witness:
  "\<exists>st'. download_to_path False world_503_then_200 (''cache'', ''bg.jpg'') 1 empty_state
            = (Inr True, st')
      \<and> fs st' (''cache'', ''bg.jpg.a0.tmp'') = None
      \<and> fs st' (''cache'', ''bg.jpg.a1.tmp'') = None
      \<and> fs st' (''cache'', ''bg.jpg'') \<noteq> None"
proof -
  let ?dest = "(''cache'', ''bg.jpg'')"
  let ?st' = "\<lparr>fs = [?dest \<mapsto> ''img''], trace = [Request 0, Request 1]\<rparr>"
  have u: "\<forall>i \<le> nat (max 0 1). \<not> unlink_raises (world_503_then_200 i)"
    by (simp add: world_503_then_200_def reply_503_def reply_200_def)
  have f: "\<forall>i \<le> nat (max 0 1).
      fs empty_state (tmp_path_of ?dest (tmp_token (world_503_then_200 i))) = None"
    by (simp add: empty_state_def)
  note t = download_leaves_no_tmp [OF u f run_503_then_200]
  from t have "\<forall>i \<le> nat (max 0 1).
      fs ?st' (tmp_path_of ?dest (tmp_token (world_503_then_200 i))) = None"
    by blast
  then have "fs ?st' (tmp_path_of ?dest (tmp_token (world_503_then_200 0))) = None"
    "fs ?st' (tmp_path_of ?dest (tmp_token (world_503_then_200 1))) = None"
    by simp_all
  then have "fs ?st' (''cache'', ''bg.jpg.a0.tmp'') = None"
    "fs ?st' (''cache'', ''bg.jpg.a1.tmp'') = None"
    by (simp_all add: tmp_path_of_def world_503_then_200_def reply_503_def reply_200_def)
  moreover from t have "fs ?st' ?dest \<noteq> None" by auto
  ultimately show ?thesis using run_503_then_200 by blast
qed

text \<open>
  Where claim C6 as stated fails: a server that answers 200 with a body, on a file system
  where \<open>os.replace\<close> raises and the temporary file cannot be removed. The download
  returns False and its temporary file, with the body, is still in the directory of the
  destination.
\<close>

theorem download_tmp_left_counterexample:
  "fs empty_state (''cache'', ''bg.jpg.a1.tmp'') = None
   \<and> download_to_path False world_stuck_tmp (''cache'', ''bg.jpg'') 0 empty_state
     = (Inr False, \<lparr>fs = [(''cache'', ''bg.jpg.a1.tmp'') \<mapsto> ''img''], trace = [Request 0]\<rparr>)"
  by (simp add: download_to_path_def upt_rec [of 0] Let_def world_stuck_tmp_def
      reply_200_def try_attempt_def finally_cleanup_def tmp_path_of_def empty_state_def
      handle_exception_def)

text \<open>
  What one attempt does, by the reply it gets: a status outside 200 to 299 ends the
  download with False unless it is a status from 500 to 599 with attempts left, which
  leads to the next attempt with no pause; an exception other than CancelledError with
  attempts left leads to the next attempt after a pause of \<open>0.2 * (attempt + 1)\<close> seconds,
  and CancelledError is raised again.
\<close>

lemma try_attempt_policy:
  "(reply a = Inr (status, content) \<and> (status < 200 \<or> 300 \<le> status)
      \<and> \<not> (500 \<le> status \<and> status \<le> 599 \<and> n < r)
      \<longrightarrow> try_attempt a dest tmp n r st
            = (Return False, st\<lparr>trace := trace st @ [Request n]\<rparr>))
   \<and> (reply a = Inr (status, content) \<and> 500 \<le> status \<and> status \<le> 599 \<and> n < r
      \<longrightarrow> try_attempt a dest tmp n r st = (Next, st\<lparr>trace := trace st @ [Request n]\<rparr>))
   \<and> (reply a = Inl e \<and> e \<noteq> CancelledError \<and> n < r
      \<longrightarrow> try_attempt a dest tmp n r st
            = (Next, st\<lparr>trace := trace st @ [Request n, Sleep (2 / 10 * of_nat (n + 1))]\<rparr>))
   \<and> (reply a = Inl CancelledError
      \<longrightarrow> try_attempt a dest tmp n r st
            = (Raise CancelledError, st\<lparr>trace := trace st @ [Request n]\<rparr>))"
  by (auto simp: try_attempt_def handle_exception_def Let_def)

lemma handle_exception_requests:
  "handle_exception e n r st = (out, st') \<Longrightarrow> requests st' = requests st"
  by (auto simp: handle_exception_def requests_def split: if_splits)

lemma try_attempt_requests:
  assumes "try_attempt a dest tmp n r st = (out, st')"
  shows "requests st' = requests st + 1"
proof -
  let ?st = "st\<lparr>trace := trace st @ [Request n]\<rparr>"
  have base: "requests ?st = requests st + 1" by (simp add: requests_def)
  have upd: "requests (s\<lparr>fs := m\<rparr>) = requests s" for s m by (simp add: requests_def)
  show ?thesis
  proof (cases "reply a")
    case (Inl e)
    with assms have "handle_exception e n r ?st = (out, st')" by (simp add: try_attempt_def)
    from handle_exception_requests [OF this] base show ?thesis by simp
  next
    case (Inr sc)
    obtain status content where sc: "sc = (status, content)" by (cases sc)
    show ?thesis
    proof (cases "status < 200 \<or> status \<ge> 300")
      case True
      with assms Inr sc have "st' = ?st" by (auto simp: try_attempt_def Let_def split: if_splits)
      with base show ?thesis by simp
    next
      case ok: False
      show ?thesis
      proof (cases content)
        case (OpenRaises e)
        with assms Inr sc ok have "handle_exception e n r ?st = (out, st')"
          by (simp add: try_attempt_def)
        from handle_exception_requests [OF this] base show ?thesis by simp
      next
        case (Stream chunks ending)
        let ?st1 = "?st\<lparr>fs := (fs ?st)(tmp \<mapsto> concat chunks)\<rparr>"
        have b1: "requests ?st1 = requests st + 1" using base by (simp add: requests_def)
        show ?thesis
        proof (cases "ending = None \<and> replace_raises a = None")
          case True
          with assms Inr sc ok Stream
          have "st' = ?st1\<lparr>fs := (fs ?st1)(tmp := None, dest \<mapsto> concat chunks)\<rparr>"
            by (auto simp: try_attempt_def Let_def)
          with b1 show ?thesis by (simp add: requests_def)
        next
          case False
          then obtain e where "handle_exception e n r ?st1 = (out, st')"
            using assms Inr sc ok Stream
            by (auto simp: try_attempt_def Let_def split: option.splits)
          from handle_exception_requests [OF this] b1 show ?thesis by simp
        qed
      qed
    qed
  qed
qed

lemma finally_cleanup_requests: "requests (finally_cleanup a tmp st) = requests st"
  by (simp add: finally_cleanup_def requests_def)

lemma attempts_loop_requests:
  "attempts_loop world dest r ns st = (res, st') \<Longrightarrow> requests st' \<le> requests st + length ns"
proof (induction ns arbitrary: st)
  case Nil
  then show ?case by simp
next
  case (Cons n ns)
  let ?a = "world n"
  let ?tmp = "tmp_path_of dest (tmp_token ?a)"
  obtain out st1 where t: "try_attempt ?a dest ?tmp n r st = (out, st1)"
    by (cases "try_attempt ?a dest ?tmp n r st")
  let ?st2 = "finally_cleanup ?a ?tmp st1"
  from try_attempt_requests [OF t] have q: "requests ?st2 = requests st + 1"
    by (simp add: finally_cleanup_requests)
  show ?case
  proof (cases out)
    case (Return b)
    with Cons.prems t have "st' = ?st2" by (simp add: Let_def)
    with q show ?thesis by simp
  next
    case (Raise e)
    with Cons.prems t have "st' = ?st2" by (simp add: Let_def)
    with q show ?thesis by simp
  next
    case Next
    with Cons.prems t have "attempts_loop world dest r ns ?st2 = (res, st')"
      by (simp add: Let_def)
    from Cons.IH [OF this] q show ?thesis by simp
  qed
qed

text \<open>A download makes at most \<open>retries + 1\<close> requests.\<close>

lemma download_attempts_bounded:
  assumes "download_to_path mk world dest retries st = (res, st')"
  shows "requests st' \<le> requests st + nat (max 0 retries) + 1"
proof (cases mk)
  case True
  with assms show ?thesis by (simp add: download_to_path_def)
next
  case False
  with assms attempts_loop_requests [of world dest "nat (max 0 retries)"
      "[0..<nat (max 0 retries) + 1]" st res st']
  show ?thesis by (simp add: download_to_path_def Let_def)
qed

text \<open>
  Claim C4 at a server that answers 503 and then 200, with one retry: the second request
  follows the first with no pause between them, where a timeout in the first attempt is
  followed by a pause of \<open>0.2\<close> seconds before the second request.
\<close>

theorem retry_5xx_without_backoff:
  "download_to_path False world_503_then_200 (''cache'', ''bg.jpg'') 1 empty_state
     = (Inr True, \<lparr>fs = [(''cache'', ''bg.jpg'') \<mapsto> ''img''], trace = [Request 0, Request 1]\<rparr>)
   \<and> download_to_path False world_timeout_then_200 (''cache'', ''bg.jpg'') 1 empty_state
     = (Inr True, \<lparr>fs = [(''cache'', ''bg.jpg'') \<mapsto> ''img''],
          trace = [Request 0, Sleep (2 / 10), Request 1]\<rparr>)"
  by (simp add: download_to_path_def upt_rec [of 0] Let_def world_503_then_200_def reply_503_def
      world_timeout_then_200_def reply_timeout_def
      reply_200_def try_attempt_def finally_cleanup_def tmp_path_of_def empty_state_def
      handle_exception_def)

subsection \<open>Background image\<close>

lemma handle_exception_not_return: "handle_exception e n r st \<noteq> (Return True, st')"
  by (auto simp: handle_exception_def)

lemma try_attempt_true_dest:
  assumes "try_attempt a dest tmp n r st = (Return True, st1)"
  shows "fs st1 dest \<noteq> None"
proof (cases "reply a")
  case (Inl e)
  with assms show ?thesis
    by (simp add: try_attempt_def handle_exception_not_return)
next
  case (Inr sc)
  obtain status content where sc: "sc = (status, content)" by (cases sc)
  show ?thesis
  proof (cases content)
    case (OpenRaises e)
    with assms Inr sc show ?thesis
      by (auto simp: try_attempt_def Let_def handle_exception_not_return split: if_splits)
  next
    case (Stream chunks ending)
    with assms Inr sc show ?thesis
      by (auto simp: try_attempt_def Let_def handle_exception_not_return
          split: if_splits option.splits)
  qed
qed

lemma finally_cleanup_other: "p \<noteq> tmp \<Longrightarrow> fs (finally_cleanup a tmp st) p = fs st p"
  by (simp add: finally_cleanup_def)

lemma attempts_loop_true_dest:
  "attempts_loop world dest r ns st = (Inr True, st') \<Longrightarrow> fs st' dest \<noteq> None"
proof (induction ns arbitrary: st)
  case Nil
  then show ?case by simp
next
  case (Cons n ns)
  let ?a = "world n"
  let ?tmp = "tmp_path_of dest (tmp_token ?a)"
  obtain out st1 where t: "try_attempt ?a dest ?tmp n r st = (out, st1)"
    by (cases "try_attempt ?a dest ?tmp n r st")
  show ?case
  proof (cases out)
    case (Return b)
    with Cons.prems t have "b" "st' = finally_cleanup ?a ?tmp st1"
      by (simp_all add: Let_def)
    with Return t try_attempt_true_dest [of ?a dest ?tmp n r st st1]
      finally_cleanup_other [of dest ?tmp ?a st1] tmp_path_neq_dest [of dest "tmp_token ?a"]
    show ?thesis by auto
  next
    case (Raise e)
    with Cons.prems t show ?thesis by (simp add: Let_def)
  next
    case Next
    with Cons.prems t have "attempts_loop world dest r ns (finally_cleanup ?a ?tmp st1)
        = (Inr True, st')"
      by (simp add: Let_def)
    then show ?thesis by (rule Cons.IH)
  qed
qed

lemma download_true_dest:
  "download_to_path mk world dest r st = (Inr True, st') \<Longrightarrow> fs st' dest \<noteq> None"
  by (cases mk) (auto simp: download_to_path_def Let_def dest: attempts_loop_true_dest)

lemma try_urls_some:
  "try_urls cfg w urls st = (Inr (Some (p, c)), st') \<Longrightarrow>
     fs st' p \<noteq> None
     \<and> (\<exists>image_url\<in>set urls. is_http image_url
           \<and> ((cache_path_for w image_url = Inr p \<and> \<not> c)
               \<or> (\<exists>cache_path. cache_path_for w image_url = Inr cache_path
                     \<and> download_target cfg w image_url cache_path = Inr (p, c)
                     \<and> (\<exists>s. download_to_path (mkdir_fails w p) (http w image_url) p 1 s
                            = (Inr True, st')))))"
proof (induction urls arbitrary: st)
  case Nil
  then show ?case by simp
next
  case (Cons u urls)
  show ?case
  proof (cases "is_http u")
    case False
    with Cons.prems have "try_urls cfg w urls st = (Inr (Some (p, c)), st')" by simp
    from Cons.IH [OF this] show ?thesis by auto
  next
    case h: True
    show ?thesis
    proof (cases "cache_path_for w u")
      case (Inl e)
      with h Cons.prems show ?thesis by simp
    next
      case cp: (Inr cache_path)
      show ?thesis
      proof (cases "fs st cache_path \<noteq> None")
        case True
        with h cp Cons.prems have "p = cache_path" "\<not> c" "st' = st"
          by simp_all
        with True h cp show ?thesis by auto
      next
        case nc: False
        show ?thesis
        proof (cases "download_target cfg w u cache_path")
          case (Inl e)
          with h cp nc Cons.prems show ?thesis by simp
        next
          case (Inr tg)
          obtain ip sc where tg: "download_target cfg w u cache_path = Inr (ip, sc)"
            using Inr by (cases tg) simp
          obtain res st1 where
            d: "download_to_path (mkdir_fails w ip) (http w u) ip 1 st = (res, st1)"
            by (cases "download_to_path (mkdir_fails w ip) (http w u) ip 1 st")
          show ?thesis
          proof (cases res)
            case (Inl e)
            with h cp nc tg d Cons.prems show ?thesis by simp
          next
            case ok: (Inr ok)
            show ?thesis
            proof (cases ok)
              case True
              with ok h cp nc tg d Cons.prems have e: "p = ip" "c = sc" "st' = st1"
                by simp_all
              with True ok d have dl: "download_to_path (mkdir_fails w p) (http w u) p 1 st
                  = (Inr True, st')"
                by simp
              from download_true_dest [OF dl] have ex: "fs st' p \<noteq> None" .
              from e tg have "download_target cfg w u cache_path = Inr (p, c)" by simp
              with h cp dl have "is_http u
                  \<and> ((cache_path_for w u = Inr p \<and> \<not> c)
                      \<or> (\<exists>cache_path. cache_path_for w u = Inr cache_path
                            \<and> download_target cfg w u cache_path = Inr (p, c)
                            \<and> (\<exists>s. download_to_path (mkdir_fails w p) (http w u) p 1 s
                                   = (Inr True, st'))))"
                by blast
              moreover have "u \<in> set (u # urls)" by simp
              ultimately show ?thesis using ex by blast
            next
              case False
              with ok h cp nc tg d Cons.prems
              have "try_urls cfg w urls st1 = (Inr (Some (p, c)), st')"
                by simp
              from Cons.IH [OF this] show ?thesis by auto
            qed
          qed
        qed
      qed
    qed
  qed
qed

text \<open>
  What the loop does with a URL: a line that is no http(s) URL is skipped; an exception
  of the computation of the cache path leaves the loop; if the cache file exists, the
  function returns that path with \<open>should_cleanup\<close> False and downloads nothing; otherwise
  the download goes to the temporary path, with \<open>should_cleanup\<close> True, when pre-caching is
  disabled and cleanup is enabled, and to the cache path, with \<open>should_cleanup\<close> False, when
  not; a download that succeeds makes the function return that path and flag, a download
  that fails makes the loop go on with the next URL, and the loop at its end returns
  null. Whenever the function returns a path, the file exists and comes from one of the
  URLs tried, by its cache file or by a download that succeeded.
\<close>

lemma try_urls_policy:
  "(\<not> is_http image_url \<longrightarrow>
       try_urls cfg w (image_url # rest) st = try_urls cfg w rest st)
   \<and> (is_http image_url \<and> cache_path_for w image_url = Inl e \<longrightarrow>
       try_urls cfg w (image_url # rest) st = (Inl e, st))
   \<and> (is_http image_url \<and> cache_path_for w image_url = Inr cache_path
       \<and> fs st cache_path \<noteq> None \<longrightarrow>
       try_urls cfg w (image_url # rest) st = (Inr (Some (cache_path, False)), st))
   \<and> download_target cfg w image_url cache_path
       = (if \<not> pre_cache_background_images cfg \<and> cleanup_background_downloads cfg
          then (case tmp_path_for w image_url of
                  Inl e \<Rightarrow> Inl e
                | Inr tmp_path \<Rightarrow> Inr (tmp_path, True))
          else Inr (cache_path, False))
   \<and> (is_http image_url \<and> cache_path_for w image_url = Inr cache_path
       \<and> fs st cache_path = None
       \<and> download_target cfg w image_url cache_path = Inl e \<longrightarrow>
       try_urls cfg w (image_url # rest) st = (Inl e, st))
   \<and> (is_http image_url \<and> cache_path_for w image_url = Inr cache_path
       \<and> fs st cache_path = None
       \<and> download_target cfg w image_url cache_path = Inr (image_path, should_cleanup)
       \<and> download_to_path (mkdir_fails w image_path) (http w image_url) image_path 1 st
            = (Inr True, st1)
       \<longrightarrow> try_urls cfg w (image_url # rest) st
             = (Inr (Some (image_path, should_cleanup)), st1))
   \<and> (is_http image_url \<and> cache_path_for w image_url = Inr cache_path
       \<and> fs st cache_path = None
       \<and> download_target cfg w image_url cache_path = Inr (image_path, should_cleanup)
       \<and> download_to_path (mkdir_fails w image_path) (http w image_url) image_path 1 st
            = (Inr False, st1)
       \<longrightarrow> try_urls cfg w (image_url # rest) st = try_urls cfg w rest st1)
   \<and> try_urls cfg w [] st = (Inr None, st)
   \<and> (get_background_image cfg w st = (Inr (Some (p, c)), st') \<longrightarrow>
         fs st' p \<noteq> None
         \<and> (\<exists>file_lines. \<exists>url\<in>set (candidate_urls w file_lines). is_http url
               \<and> ((cache_path_for w url = Inr p \<and> \<not> c)
                   \<or> (\<exists>cache_path. cache_path_for w url = Inr cache_path
                         \<and> download_target cfg w url cache_path = Inr (p, c)
                         \<and> (\<exists>s. download_to_path (mkdir_fails w p) (http w url) p 1 s
                                = (Inr True, st'))))))"
proof -
  have skip: "\<not> is_http image_url \<longrightarrow>
       try_urls cfg w (image_url # rest) st = try_urls cfg w rest st"
    by simp
  have raised: "is_http image_url \<and> cache_path_for w image_url = Inl e \<longrightarrow>
       try_urls cfg w (image_url # rest) st = (Inl e, st)"
    by simp
  have cached: "is_http image_url \<and> cache_path_for w image_url = Inr cache_path
       \<and> fs st cache_path \<noteq> None \<longrightarrow>
       try_urls cfg w (image_url # rest) st = (Inr (Some (cache_path, False)), st)"
    by simp
  have target: "download_target cfg w image_url cache_path
       = (if \<not> pre_cache_background_images cfg \<and> cleanup_background_downloads cfg
          then (case tmp_path_for w image_url of
                  Inl e \<Rightarrow> Inl e
                | Inr tmp_path \<Rightarrow> Inr (tmp_path, True))
          else Inr (cache_path, False))"
    by (simp add: download_target_def)
  have no_target: "is_http image_url \<and> cache_path_for w image_url = Inr cache_path
       \<and> fs st cache_path = None
       \<and> download_target cfg w image_url cache_path = Inl e \<longrightarrow>
       try_urls cfg w (image_url # rest) st = (Inl e, st)"
    by simp
  have ok: "is_http image_url \<and> cache_path_for w image_url = Inr cache_path
       \<and> fs st cache_path = None
       \<and> download_target cfg w image_url cache_path = Inr (image_path, should_cleanup)
       \<and> download_to_path (mkdir_fails w image_path) (http w image_url) image_path 1 st
            = (Inr True, st1)
       \<longrightarrow> try_urls cfg w (image_url # rest) st
             = (Inr (Some (image_path, should_cleanup)), st1)"
    by simp
  have failed: "is_http image_url \<and> cache_path_for w image_url = Inr cache_path
       \<and> fs st cache_path = None
       \<and> download_target cfg w image_url cache_path = Inr (image_path, should_cleanup)
       \<and> download_to_path (mkdir_fails w image_path) (http w image_url) image_path 1 st
            = (Inr False, st1)
       \<longrightarrow> try_urls cfg w (image_url # rest) st = try_urls cfg w rest st1"
    by simp
  have whole: "get_background_image cfg w st = (Inr (Some (p, c)), st') \<longrightarrow>
         fs st' p \<noteq> None
         \<and> (\<exists>file_lines. \<exists>url\<in>set (candidate_urls w file_lines). is_http url
               \<and> ((cache_path_for w url = Inr p \<and> \<not> c)
                   \<or> (\<exists>cache_path. cache_path_for w url = Inr cache_path
                         \<and> download_target cfg w url cache_path = Inr (p, c)
                         \<and> (\<exists>s. download_to_path (mkdir_fails w p) (http w url) p 1 s
                                = (Inr True, st')))))"
  proof
    assume g: "get_background_image cfg w st = (Inr (Some (p, c)), st')"
    then obtain file_lines where
      "try_urls cfg w (candidate_urls w file_lines) st = (Inr (Some (p, c)), st')"
      by (auto simp: get_background_image_def Let_def
          split: if_splits sum.splits prod.splits)
    from try_urls_some [OF this]
    show "fs st' p \<noteq> None
         \<and> (\<exists>file_lines. \<exists>url\<in>set (candidate_urls w file_lines). is_http url
               \<and> ((cache_path_for w url = Inr p \<and> \<not> c)
                   \<or> (\<exists>cache_path. cache_path_for w url = Inr cache_path
                         \<and> download_target cfg w url cache_path = Inr (p, c)
                         \<and> (\<exists>s. download_to_path (mkdir_fails w p) (http w url) p 1 s
                                = (Inr True, st')))))"
      by blast
  qed
  have fin: "try_urls cfg w [] st = (Inr None, st)" by simp
  from skip raised cached target no_target ok failed fin whole show ?thesis by blast
qed

text \<open>The example: the line that is no URL is skipped, the URL is downloaded.\<close>

lemma example_bg_run:
  "get_background_image default_resource_config example_bg_world empty_state
     = (Inr (Some ((''background_images_tmp'', ''token.jpg''), True)),
        \<lparr>fs = [(''background_images_tmp'', ''token.jpg'') \<mapsto> ''img''], trace = [Request 0]\<rparr>)"
  by (simp add: get_background_image_def example_bg_world_def default_resource_config_def
      endswith_def candidate_urls_def strip_def is_space_def is_http_def startswith_def
      download_target_def download_to_path_def upt_rec [of 0] Let_def reply_200_def
      try_attempt_def finally_cleanup_def tmp_path_of_def empty_state_def)

text \<open>
  Claim C7 at a list whose first candidate makes \<open>urlparse\<close> raise and whose second
  candidate the server answers with 200: the exception of the path computation leaves
  the loop, the function returns null without any request, and the second candidate is
  never tried, although it alone gives the image. When the first candidate fails by its
  download instead (the server answers 404), the loop goes on and the function returns
  the image of the second.
\<close>

theorem malformed_url_ends_background_search:
  "candidate_urls malformed_first_world [''http://[::1/a.jpg'', ''http://h/1.jpg'']
       = [''http://[::1/a.jpg'', ''http://h/1.jpg'']
   \<and> is_http ''http://[::1/a.jpg''
   \<and> cache_path_for malformed_first_world ''http://[::1/a.jpg'' = Inl ValueError
   \<and> try_urls default_resource_config malformed_first_world
        [''http://[::1/a.jpg'', ''http://h/1.jpg''] empty_state = (Inl ValueError, empty_state)
   \<and> get_background_image default_resource_config malformed_first_world empty_state
       = (Inr None, empty_state)
   \<and> try_urls default_resource_config malformed_first_world [''http://h/1.jpg''] empty_state
       = (Inr (Some ((''background_images_tmp'', ''token.jpg''), True)),
          \<lparr>fs = [(''background_images_tmp'', ''token.jpg'') \<mapsto> ''img''], trace = [Request 0]\<rparr>)
   \<and> get_background_image default_resource_config broken_link_world empty_state
       = (Inr (Some ((''background_images_tmp'', ''token.jpg''), True)),
          \<lparr>fs = [(''background_images_tmp'', ''token.jpg'') \<mapsto> ''img''],
            trace = [Request 0, Request 0]\<rparr>)"
proof -
  have cands: "candidate_urls malformed_first_world [''http://[::1/a.jpg'', ''http://h/1.jpg'']
       = [''http://[::1/a.jpg'', ''http://h/1.jpg'']"
    by (simp add: candidate_urls_def malformed_first_world_def example_bg_world_def strip_def
        is_space_def)
  have h: "is_http ''http://[::1/a.jpg''" "is_http ''http://h/1.jpg''"
    by (simp_all add: is_http_def startswith_def)
  have cp: "cache_path_for malformed_first_world ''http://[::1/a.jpg'' = Inl ValueError"
    by (simp add: malformed_first_world_def)
  have loop: "try_urls default_resource_config malformed_first_world
        [''http://[::1/a.jpg'', ''http://h/1.jpg''] empty_state = (Inl ValueError, empty_state)"
    by (simp add: h cp)
  have whole: "get_background_image default_resource_config malformed_first_world empty_state
       = (Inr None, empty_state)"
    by (simp add: get_background_image_def malformed_first_world_def example_bg_world_def
        default_resource_config_def endswith_def candidate_urls_def strip_def is_space_def
        is_http_def startswith_def Let_def empty_state_def)
  have second: "try_urls default_resource_config malformed_first_world [''http://h/1.jpg'']
        empty_state
       = (Inr (Some ((''background_images_tmp'', ''token.jpg''), True)),
          \<lparr>fs = [(''background_images_tmp'', ''token.jpg'') \<mapsto> ''img''], trace = [Request 0]\<rparr>)"
    by (simp add: h malformed_first_world_def example_bg_world_def default_resource_config_def
        download_target_def download_to_path_def upt_rec [of 0] Let_def reply_200_def
        try_attempt_def finally_cleanup_def tmp_path_of_def empty_state_def)
  have sibling: "get_background_image default_resource_config broken_link_world empty_state
       = (Inr (Some ((''background_images_tmp'', ''token.jpg''), True)),
          \<lparr>fs = [(''background_images_tmp'', ''token.jpg'') \<mapsto> ''img''],
            trace = [Request 0, Request 0]\<rparr>)"
    by (simp add: get_background_image_def broken_link_world_def example_bg_world_def
        default_resource_config_def endswith_def candidate_urls_def strip_def is_space_def
        is_http_def startswith_def download_target_def download_to_path_def upt_rec [of 0]
        Let_def reply_200_def reply_404_def try_attempt_def finally_cleanup_def tmp_path_of_def
        empty_state_def)
  from cands h(1) cp loop whole second sibling show ?thesis by simp
qed

subsection \<open>Cache migration\<close>

lemma map_of_filter_other:
  "n' \<noteq> name \<Longrightarrow> map_of (filter (\<lambda>(n, e). n \<noteq> name) al) n' = map_of al n'"
  by (induction al) auto

lemma map_of_filter_same: "map_of (filter (\<lambda>(n, e). n \<noteq> name) al) name = None"
  by (induction al) auto

lemma discard_source_other:
  "discard_source f name st = (r, st') \<Longrightarrow> n' \<noteq> name \<Longrightarrow>
     target st' n' = target st n' \<and> map_of (legacy st') n' = map_of (legacy st) n'"
  by (auto simp: discard_source_def map_of_filter_other split: if_splits)

lemma move_source_other:
  "move_source f name m c st = (r, st') \<Longrightarrow> n' \<noteq> name \<Longrightarrow>
     target st' n' = target st n' \<and> map_of (legacy st') n' = map_of (legacy st) n'"
  by (auto simp: move_source_def Let_def map_of_filter_other
      split: replace_result.splits if_splits)

lemma item_body_other:
  assumes "item_body f name m c st = (r, st')" and "n' \<noteq> name"
  shows "target st' n' = target st n' \<and> map_of (legacy st') n' = map_of (legacy st) n'"
proof (cases "target st name")
  case None
  with assms(1) have "move_source f name m c st = (r, st')" by (simp add: item_body_def)
  from move_source_other [OF this assms(2)] show ?thesis .
next
  case (Some d)
  obtain dm dc where d: "d = (dm, dc)" by (cases d)
  show ?thesis
  proof (cases "stat_raises f \<or> m \<le> dm")
    case True
    with assms(1) Some d have "discard_source f name st = (r, st')"
      by (auto simp: item_body_def split: if_splits)
    from discard_source_other [OF this assms(2)] show ?thesis .
  next
    case False
    with assms(1) Some d
    have "move_source f name m c (st\<lparr>replaced := replaced st + 1\<rparr>) = (r, st')"
      by (auto simp: item_body_def split: if_splits)
    from move_source_other [OF this assms(2)] show ?thesis by simp
  qed
qed

lemma migrate_item_other:
  assumes "n' \<noteq> name"
  shows "target (migrate_item f name st) n' = target st n'
    \<and> map_of (legacy (migrate_item f name st)) n' = map_of (legacy st) n'"
proof (cases "map_of (legacy st) name")
  case None
  then show ?thesis by (simp add: migrate_item_def)
next
  case (Some e)
  show ?thesis
  proof (cases e)
    case OtherEntry
    with Some show ?thesis by (simp add: migrate_item_def)
  next
    case (RegularFile m c)
    obtain r st' where b: "item_body f name m c st = (r, st')"
      by (cases "item_body f name m c st")
    from item_body_other [OF b assms] Some RegularFile b show ?thesis
      by (cases r) (simp_all add: migrate_item_def)
  qed
qed

lemma migrate_item_absent: "map_of (legacy st) name = None \<Longrightarrow> migrate_item f name st = st"
  by (simp add: migrate_item_def)

text \<open>A file that is no longer in the legacy directory is left alone by the rest of the loop.\<close>

lemma migrate_loop_absent:
  "map_of (legacy st) n = None \<Longrightarrow>
     target (snd (migrate_loop faults names st)) n = target st n
     \<and> map_of (legacy (snd (migrate_loop faults names st))) n = None"
proof (induction names arbitrary: st)
  case Nil
  then show ?case by simp
next
  case (Cons x xs)
  show ?case
  proof (cases "is_file_raises (faults x)")
    case True
    with Cons.prems show ?thesis by simp
  next
    case nr: False
    show ?thesis
    proof (cases "x = n")
      case True
      with Cons.prems have "migrate_item (faults x) x st = st"
        by (simp add: migrate_item_absent)
      with Cons.IH [OF Cons.prems] nr show ?thesis by simp
    next
      case False
      then have o: "target (migrate_item (faults x) x st) n = target st n"
        "map_of (legacy (migrate_item (faults x) x st)) n = map_of (legacy st) n"
        using migrate_item_other [of n x "faults x" st] by simp_all
      with Cons.prems have "map_of (legacy (migrate_item (faults x) x st)) n = None" by simp
      from Cons.IH [OF this] o nr show ?thesis by simp
    qed
  qed
qed

lemma migrate_item_no_faults:
  assumes "map_of (legacy st) name = Some (RegularFile m c)" and "operations_succeed f"
  shows "migrated name m c st (migrate_item f name st)"
  using assms
  by (auto simp: migrated_def migrate_item_def item_body_def discard_source_def move_source_def
      operations_succeed_def Let_def map_of_filter_same split: option.splits)

text \<open>The loop runs to its end when \<open>is_file\<close> raises on no entry.\<close>

lemma migrate_loop_completes:
  "\<forall>x\<in>set names. \<not> is_file_raises (faults x) \<Longrightarrow> fst (migrate_loop faults names st) = None"
  by (induction names arbitrary: st) simp_all

lemma migrate_loop_no_faults:
  assumes "n \<in> set names" and "map_of (legacy st) n = Some (RegularFile m c)"
    and "operations_succeed (faults n)"
    and "\<forall>x\<in>set names. \<not> is_file_raises (faults x)"
  shows "migrated n m c st (snd (migrate_loop faults names st))"
  using assms(1,2,4)
proof (induction names arbitrary: st)
  case Nil
  then show ?case by simp
next
  case (Cons x xs)
  from Cons.prems(3) have nr: "\<not> is_file_raises (faults x)"
    and rest: "\<forall>y\<in>set xs. \<not> is_file_raises (faults y)"
    by simp_all
  show ?case
  proof (cases "x = n")
    case True
    let ?st1 = "migrate_item (faults n) n st"
    from migrate_item_no_faults [OF Cons.prems(2) assms(3)]
    have m1: "migrated n m c st ?st1" .
    then have "map_of (legacy ?st1) n = None" by (simp add: migrated_def)
    from migrate_loop_absent [OF this, of faults xs] m1 True nr show ?thesis
      by (simp add: migrated_def)
  next
    case False
    let ?st1 = "migrate_item (faults x) x st"
    from False have o: "target ?st1 n = target st n"
      "map_of (legacy ?st1) n = map_of (legacy st) n"
      using migrate_item_other [of n x "faults x" st] by simp_all
    from Cons.prems False have "n \<in> set xs" by simp
    moreover from o Cons.prems(2) have "map_of (legacy ?st1) n = Some (RegularFile m c)"
      by simp
    ultimately have "migrated n m c ?st1 (snd (migrate_loop faults xs ?st1))"
      using rest by (rule Cons.IH)
    with o nr show ?thesis by (simp add: migrated_def)
  qed
qed

lemma item_body_counters:
  "item_body f name m c st = (r, st') \<Longrightarrow>
     failed st' = failed st \<and> legacy_removed st' = legacy_removed st"
  by (auto simp: item_body_def discard_source_def move_source_def Let_def
      split: option.splits if_splits replace_result.splits)

lemma migrate_item_removed: "legacy_removed (migrate_item f name st) = legacy_removed st"
proof (cases "map_of (legacy st) name")
  case None
  then show ?thesis by (simp add: migrate_item_def)
next
  case (Some e)
  show ?thesis
  proof (cases e)
    case OtherEntry
    with Some show ?thesis by (simp add: migrate_item_def)
  next
    case (RegularFile m c)
    obtain r st' where b: "item_body f name m c st = (r, st')"
      by (cases "item_body f name m c st")
    from item_body_counters [OF b] Some RegularFile b show ?thesis
      by (cases r) (simp_all add: migrate_item_def)
  qed
qed

lemma migrate_loop_removed:
  "legacy_removed (snd (migrate_loop faults names st)) = legacy_removed st"
  by (induction names arbitrary: st) (simp_all add: migrate_item_removed)

lemma migrate_item_failed:
  assumes "map_of (legacy st) name = Some (RegularFile m c)"
    and "fst (item_body f name m c st)"
  shows "failed (migrate_item f name st) = failed st + 1"
proof -
  obtain r st' where b: "item_body f name m c st = (r, st')"
    by (cases "item_body f name m c st")
  with assms(2) have r by simp
  with item_body_counters [OF b] assms(1) b show ?thesis
    by (simp add: migrate_item_def)
qed

text \<open>
  What the migration does when \<open>is_file\<close> raises on no entry of the legacy directory. It
  runs when the legacy directory is a directory other than the target and the target can
  be created. Then for every regular file of the legacy directory whose own operations
  succeed (by a rename, or by a copy and a removal across devices), whatever the body of
  the loop does to the other files: if the target has a file of that name, the newer of
  the two is in the target afterwards (the target's own on a tie) and the source is gone;
  if it has none, the source is moved there. The legacy directory is removed only when it
  has no entry left. A file for which the body of the loop raises is counted as failed,
  and the loop goes on with the next.
\<close>

lemma migration_policy:
  "(legacy_is_dir w \<and> \<not> same_resolved w \<and> \<not> target_mkdir_raises w
      \<and> (\<forall>x\<in>set (map fst (legacy st)). \<not> is_file_raises (item_faults w x))
      \<and> map_of (legacy st) name = Some (RegularFile src_mtime content)
      \<and> operations_succeed (item_faults w name) \<longrightarrow>
        map_of (legacy (migrate_legacy_cache_dir w st)) name = None
        \<and> (\<forall>dest_mtime dest_content. target st name = Some (dest_mtime, dest_content) \<longrightarrow>
              target (migrate_legacy_cache_dir w st) name
                = (if src_mtime \<le> dest_mtime then Some (dest_mtime, dest_content)
                   else Some (src_mtime, content)))
        \<and> (target st name = None \<longrightarrow>
              target (migrate_legacy_cache_dir w st) name = Some (src_mtime, content)))
   \<and> (\<not> legacy_removed st \<and> legacy_removed (migrate_legacy_cache_dir w st) \<longrightarrow>
        legacy (migrate_legacy_cache_dir w st) = [])
   \<and> (map_of (legacy st) name = Some (RegularFile src_mtime content)
        \<and> fst (item_body f name src_mtime content st) \<longrightarrow>
        failed (migrate_item f name st) = failed st + 1)"
proof -
  let ?run = "migrate_loop (item_faults w) (map fst (legacy st)) st"
  let ?st1 = "snd ?run"
  have per_file: "map_of (legacy (migrate_legacy_cache_dir w st)) name = None
        \<and> (\<forall>dest_mtime dest_content. target st name = Some (dest_mtime, dest_content) \<longrightarrow>
              target (migrate_legacy_cache_dir w st) name
                = (if src_mtime \<le> dest_mtime then Some (dest_mtime, dest_content)
                   else Some (src_mtime, content)))
        \<and> (target st name = None \<longrightarrow>
              target (migrate_legacy_cache_dir w st) name = Some (src_mtime, content))"
    if a: "legacy_is_dir w" "\<not> same_resolved w" "\<not> target_mkdir_raises w"
      "\<forall>x\<in>set (map fst (legacy st)). \<not> is_file_raises (item_faults w x)"
      "map_of (legacy st) name = Some (RegularFile src_mtime content)"
      "operations_succeed (item_faults w name)"
  proof -
    from a(5) have "name \<in> set (map fst (legacy st))"
      by (metis map_of_eq_None_iff option.distinct(1) set_map)
    from migrate_loop_no_faults [of name "map fst (legacy st)" st src_mtime content
        "item_faults w", OF this a(5) a(6) a(4)]
    have m: "migrated name src_mtime content st ?st1" .
    have "legacy (migrate_legacy_cache_dir w st) = legacy ?st1"
      "target (migrate_legacy_cache_dir w st) = target ?st1"
      using a(1-3) by (simp_all add: migrate_legacy_cache_dir_def split: prod.splits option.splits)
    with m show ?thesis by (auto simp: migrated_def)
  qed
  have removed: "legacy (migrate_legacy_cache_dir w st) = []"
    if r: "\<not> legacy_removed st" "legacy_removed (migrate_legacy_cache_dir w st)"
  proof (cases "legacy_is_dir w \<and> \<not> same_resolved w \<and> \<not> target_mkdir_raises w")
    case False
    then have "migrate_legacy_cache_dir w st = st"
      by (auto simp: migrate_legacy_cache_dir_def)
    with r show ?thesis by simp
  next
    case True
    obtain e s where rs: "?run = (e, s)" by (cases ?run)
    from migrate_loop_removed [of "item_faults w" "map fst (legacy st)" st] rs r(1)
    have s: "\<not> legacy_removed s" by simp
    show ?thesis
    proof (cases "e = None \<and> legacy s = []")
      case True
      with \<open>legacy_is_dir w \<and> \<not> same_resolved w \<and> \<not> target_mkdir_raises w\<close> rs
      show ?thesis by (simp add: migrate_legacy_cache_dir_def)
    next
      case False
      with \<open>legacy_is_dir w \<and> \<not> same_resolved w \<and> \<not> target_mkdir_raises w\<close> rs
      have "migrate_legacy_cache_dir w st = s"
        by (auto simp: migrate_legacy_cache_dir_def split: option.splits)
      with r(2) s show ?thesis by simp
    qed
  qed
  from per_file removed migrate_item_failed [of st name src_mtime content f]
  show ?thesis by blast
qed

lemma example_migration_lookup:
  "map_of (legacy example_migration_state) ''1.jpg'' = Some (RegularFile 10 ''old'')"
  "map_of (legacy example_migration_state) ''2.jpg'' = Some (RegularFile 30 ''new'')"
  "map_of (legacy example_migration_state) ''3.jpg'' = Some (RegularFile 5 ''c'')"
  "map_of (legacy example_migration_state) ''4.jpg'' = Some (RegularFile 7 ''d'')"
  "target example_migration_state ''1.jpg'' = Some (20, ''kept'')"
  "target example_migration_state ''2.jpg'' = Some (20, ''stale'')"
  "target example_migration_state ''3.jpg'' = None"
  by (simp_all add: example_migration_state_def)

lemma example_migration_world_ok:
  "legacy_is_dir example_migration_world" "\<not> same_resolved example_migration_world"
  "\<not> target_mkdir_raises example_migration_world"
  "\<forall>x\<in>set (map fst (legacy example_migration_state)).
      \<not> is_file_raises (item_faults example_migration_world x)"
  "operations_succeed (item_faults example_migration_world ''1.jpg'')"
  "operations_succeed (item_faults example_migration_world ''2.jpg'')"
  "operations_succeed (item_faults example_migration_world ''3.jpg'')"
  by (simp_all add: example_migration_world_def operations_succeed_def no_faults_def
      example_migration_state_def)

text \<open>
  The example migration: the older avatar is dropped, the newer one replaces the
  target's, the new one is moved, although \<open>os.replace\<close> raises on the first file of the
  directory.
\<close>

lemma migration_example:
  "target (migrate_legacy_cache_dir example_migration_world example_migration_state) ''1.jpg''
      = Some (20, ''kept'')
   \<and> target (migrate_legacy_cache_dir example_migration_world example_migration_state) ''2.jpg''
      = Some (30, ''new'')
   \<and> target (migrate_legacy_cache_dir example_migration_world example_migration_state) ''3.jpg''
      = Some (5, ''c'')
   \<and> map_of (legacy (migrate_legacy_cache_dir example_migration_world example_migration_state))
        ''1.jpg'' = None
   \<and> map_of (legacy (migrate_legacy_cache_dir example_migration_world example_migration_state))
        ''2.jpg'' = None
   \<and> map_of (legacy (migrate_legacy_cache_dir example_migration_world example_migration_state))
        ''3.jpg'' = None"
proof -
  note w = example_migration_world_ok and l = example_migration_lookup
  from migration_policy [of example_migration_world example_migration_state "''1.jpg''" 10
      "''old''" no_faults] w l
  have "target (migrate_legacy_cache_dir example_migration_world example_migration_state)
          ''1.jpg'' = Some (20, ''kept'')
      \<and> map_of (legacy (migrate_legacy_cache_dir example_migration_world
          example_migration_state)) ''1.jpg'' = None"
    by simp
  moreover
  from migration_policy [of example_migration_world example_migration_state "''2.jpg''" 30
      "''new''" no_faults] w l
  have "target (migrate_legacy_cache_dir example_migration_world example_migration_state)
          ''2.jpg'' = Some (30, ''new'')
      \<and> map_of (legacy (migrate_legacy_cache_dir example_migration_world
          example_migration_state)) ''2.jpg'' = None"
    by simp
  moreover
  from migration_policy [of example_migration_world example_migration_state "''3.jpg''" 5
      "''c''" no_faults] w l
  have "target (migrate_legacy_cache_dir example_migration_world example_migration_state)
          ''3.jpg'' = Some (5, ''c'')
      \<and> map_of (legacy (migrate_legacy_cache_dir example_migration_world
          example_migration_state)) ''3.jpg'' = None"
    by simp
  ultimately show ?thesis by blast
qed

lemma example_migration_run:
  "migrate_loop (item_faults example_migration_world)
       (map fst (legacy example_migration_state)) example_migration_state
     = (None,
        \<lparr>legacy = [(''4.jpg'', RegularFile 7 ''d'')],
        target = [''1.jpg'' \<mapsto> (20, ''kept''), ''2.jpg'' \<mapsto> (30, ''new''),
                  ''3.jpg'' \<mapsto> (5, ''c'')],
        moved = 2, skipped = 1, replaced = 1, failed = 1, legacy_removed = False\<rparr>)"
  by (simp add: example_migration_world_def example_migration_state_def no_faults_def
      migrate_item_def item_body_def discard_source_def move_source_def)

text \<open>
  Claim C8 at a legacy directory on whose first entry \<open>is_file\<close> raises, with three regular
  files after it whose operations all succeed: the exception leaves the loop, no file is
  migrated, nothing is counted as failed, and the state is as before the call. When it
  is \<open>os.replace\<close> that raises on the same entry, inside the \<open>try\<close> of the body, the failure
  is counted and the three files after it are migrated.
\<close>

theorem is_file_failure_aborts_migration:
  "map fst (legacy example_migration_state) = [''4.jpg'', ''1.jpg'', ''2.jpg'', ''3.jpg'']
   \<and> is_file_raises (item_faults is_file_fault_world ''4.jpg'')
   \<and> item_faults is_file_fault_world ''1.jpg'' = no_faults
   \<and> item_faults is_file_fault_world ''2.jpg'' = no_faults
   \<and> item_faults is_file_fault_world ''3.jpg'' = no_faults
   \<and> map_of (legacy example_migration_state) ''3.jpg'' = Some (RegularFile 5 ''c'')
   \<and> target example_migration_state ''3.jpg'' = None
   \<and> migrate_loop (item_faults is_file_fault_world) (map fst (legacy example_migration_state))
        example_migration_state = (Some OSError, example_migration_state)
   \<and> migrate_legacy_cache_dir is_file_fault_world example_migration_state
        = example_migration_state
   \<and> target (migrate_legacy_cache_dir is_file_fault_world example_migration_state) ''3.jpg''
        = None
   \<and> failed (migrate_legacy_cache_dir is_file_fault_world example_migration_state) = 0
   \<and> target (migrate_legacy_cache_dir example_migration_world example_migration_state) ''3.jpg''
        = Some (5, ''c'')
   \<and> failed (migrate_legacy_cache_dir example_migration_world example_migration_state) = 1"
proof -
  have names: "map fst (legacy example_migration_state)
      = [''4.jpg'', ''1.jpg'', ''2.jpg'', ''3.jpg'']"
    by (simp add: example_migration_state_def)
  have faults: "is_file_raises (item_faults is_file_fault_world ''4.jpg'')"
    "item_faults is_file_fault_world ''1.jpg'' = no_faults"
    "item_faults is_file_fault_world ''2.jpg'' = no_faults"
    "item_faults is_file_fault_world ''3.jpg'' = no_faults"
    by (simp_all add: is_file_fault_world_def)
  have loop: "migrate_loop (item_faults is_file_fault_world)
      (map fst (legacy example_migration_state)) example_migration_state
        = (Some OSError, example_migration_state)"
    by (simp add: names faults)
  have run: "migrate_legacy_cache_dir is_file_fault_world example_migration_state
      = example_migration_state"
    by (simp add: migrate_legacy_cache_dir_def loop)
  have none: "target example_migration_state ''3.jpg'' = None"
    "failed example_migration_state = 0"
    "map_of (legacy example_migration_state) ''3.jpg'' = Some (RegularFile 5 ''c'')"
    by (simp_all add: example_migration_state_def)
  have w: "legacy_is_dir example_migration_world" "\<not> same_resolved example_migration_world"
    "\<not> target_mkdir_raises example_migration_world"
    by (simp_all add: example_migration_world_def)
  have sibling: "migrate_legacy_cache_dir example_migration_world example_migration_state
      = \<lparr>legacy = [(''4.jpg'', RegularFile 7 ''d'')],
         target = [''1.jpg'' \<mapsto> (20, ''kept''), ''2.jpg'' \<mapsto> (30, ''new''),
                   ''3.jpg'' \<mapsto> (5, ''c'')],
         moved = 2, skipped = 1, replaced = 1, failed = 1, legacy_removed = False\<rparr>"
    by (simp add: migrate_legacy_cache_dir_def w example_migration_run)
  from names faults none loop run sibling show ?thesis by simp
qed

subsection \<open>Request handling\<close>

text \<open>
  What the handler does when a fetch fails in a way it checks for: a background fetch
  that raises or returns None, or an avatar fetch that raises an Exception. The renderer
  is not called, a message of failure is yielded, and an ephemeral background already
  fetched is removed unless its removal raises.
\<close>

lemma checked_fetch_failure_aborts:
  assumes "(\<exists>e. background_fetch w = Raised e) \<or> background_fetch w = Returned None
      \<or> (\<exists>e. avatar_fetch w = Raised e \<and> is_exception e)"
  shows "renders (jrys w user_id st) = renders st
    \<and> (\<exists>m. sent (jrys w user_id st) = sent st @ [m]
          \<and> (m = BackgroundFailed \<or> m = AvatarFailed \<or> m = FetchFailed))
    \<and> (\<forall>p. background_fetch w = Returned (Some (p, True)) \<and> \<not> remove_raises w p
          \<longrightarrow> files (jrys w user_id st) p = None)"
  using assms
  by (auto simp: jrys_def remove_if_exists_def Let_def
      split: fetched.splits option.splits prod.splits)

text \<open>
  Claim C5 at a request whose avatar fetch returns None while the background fetch
  returns an ephemeral file: the renderer is called, with no avatar path, the poster is
  yielded instead of a message of failure, and the background is kept.
\<close>

theorem avatar_none_still_renders:
  "avatar_fetch avatar_none_world = Returned None
   \<and> background_fetch avatar_none_world
       = Returned (Some ((''background_images_tmp'', ''token.jpg''), True))
   \<and> renders (jrys avatar_none_world ''u1'' one_background_state)
       = [(None, (''background_images_tmp'', ''token.jpg''))]
   \<and> sent (jrys avatar_none_world ''u1'' one_background_state)
       = [ImageResult (''tmp'', ''poster.jpg'')]
   \<and> files (jrys avatar_none_world ''u1'' one_background_state)
        (''background_images_tmp'', ''token.jpg'') = Some ''img''"
  by (simp add: jrys_def render_and_send_def remove_if_exists_def avatar_none_world_def
      one_background_state_def Let_def)

end
